theory Spec2Isabelle
  imports Complex_Main "HOL-Library.Sublist"
begin

section \<open>The NumPy fragment used by the sources\<close>

text \<open>
  The arrays of \<^verbatim>\<open>landweber.py\<close> and of the interpolation helper hold float64
  numbers.  They are modelled with entries of type \<^typ>\<open>real\<close>.  The methods are
  embedded twice: first in exact arithmetic, where every operation returns the real
  result, and then with every operation's result rounded to float64 (sections
  ``Float64 rounding'' and ``The class with rounded arithmetic'' below).  Overflow and
  infinities are outside both models.  The one place where the sources create a
  not-a-number from finite entries, \<^verbatim>\<open>np.mean\<close> of an empty array, is kept
  (\<open>NaN\<close> below).

  A one-dimensional array is a \<^typ>\<open>real list\<close>.  A two-dimensional array carries
  its shape, as \<^verbatim>\<open>np.shape\<close> reports it, and its rows.
\<close>

datatype error = ValueError | IndexError | TypeError | AttributeError

datatype float64 = NaN | Num real

record ndarray2 =
  shape0 :: nat
  shape1 :: nat
  rows :: "real list list"

definition wf_ndarray2 :: "ndarray2 \<Rightarrow> bool" where
  "wf_ndarray2 A \<longleftrightarrow>
     length (rows A) = shape0 A \<and> list_all (\<lambda>r. length r = shape1 A) (rows A)"

definition vdot :: "real list \<Rightarrow> real list \<Rightarrow> real" where
  "vdot xs ys = sum_list (map2 (*) xs ys)"

text \<open>\<^verbatim>\<open>np.dot(A, x)\<close> for a 2-D \<open>A\<close> and a 1-D \<open>x\<close>: the last axis of \<open>A\<close> must
  have the length of \<open>x\<close>, otherwise NumPy raises \<^verbatim>\<open>ValueError\<close> (shapes not aligned).\<close>

definition np_dot :: "ndarray2 \<Rightarrow> real list \<Rightarrow> error + real list" where
  "np_dot A x =
     (if shape1 A = length x then Inr (map (\<lambda>r. vdot r x) (rows A)) else Inl ValueError)"

definition np_transpose :: "ndarray2 \<Rightarrow> ndarray2" where
  "np_transpose A =
     \<lparr>shape0 = shape1 A, shape1 = shape0 A,
      rows = map (\<lambda>j. map (\<lambda>r. r ! j) (rows A)) [0..<shape1 A]\<rparr>"

text \<open>Element-wise binary operations on 1-D arrays follow NumPy's broadcasting: equal
  lengths combine pointwise, an array of length one is stretched to the other length,
  and any other pair of lengths raises \<^verbatim>\<open>ValueError\<close>.\<close>

definition np_broadcast ::
  "(real \<Rightarrow> real \<Rightarrow> real) \<Rightarrow> real list \<Rightarrow> real list \<Rightarrow> error + real list" where
  "np_broadcast f a b =
     (if length a = length b then Inr (map2 f a b)
      else if length a = 1 then Inr (map (\<lambda>y. f (hd a) y) b)
      else if length b = 1 then Inr (map (\<lambda>x. f x (hd b)) a)
      else Inl ValueError)"

definition np_sub :: "real list \<Rightarrow> real list \<Rightarrow> error + real list" where
  "np_sub a b = np_broadcast (-) a b"

definition np_add :: "real list \<Rightarrow> real list \<Rightarrow> error + real list" where
  "np_add a b = np_broadcast (+) a b"

definition np_square :: "real list \<Rightarrow> real list" where
  "np_square a = map (\<lambda>x. x ^ 2) a"

definition np_sum :: "real list \<Rightarrow> real" where
  "np_sum a = sum_list a"

text \<open>\<^verbatim>\<open>np.mean\<close> of an empty array is \<^verbatim>\<open>nan\<close> (with a warning, not an exception).\<close>

definition np_mean :: "real list \<Rightarrow> float64" where
  "np_mean a = (if a = [] then NaN else Num (sum_list a / real (length a)))"

definition np_zeros :: "nat \<Rightarrow> real list" where
  "np_zeros n = replicate n 0"

definition np_append :: "'a list \<Rightarrow> 'a \<Rightarrow> 'a list" where
  "np_append a x = a @ [x]"

text \<open>\<^verbatim>\<open>a[k]\<close> for a 1-D array and a Python integer: a negative index counts from the
  end, an index outside \<open>-len .. len-1\<close> raises \<^verbatim>\<open>IndexError\<close>.\<close>

definition getitem :: "real list \<Rightarrow> int \<Rightarrow> error + real" where
  "getitem a k =
     (let n = int (length a); j = (if k < 0 then n + k else k)
      in if 0 \<le> j \<and> j < n then Inr (a ! nat j) else Inl IndexError)"

section \<open>The class \<^verbatim>\<open>landweber\<close>\<close>

text \<open>
  The attributes of an instance.  \<open>true_signal\<close> is \<open>None\<close> or an array; the attribute
  \<open>mse\<close> exists only when a true signal was given, so it is optional as well
  (\<open>None\<close>: the attribute does not exist).
\<close>

record landweber =
  input_matrix :: ndarray2
  output_variable :: "real list"
  true_signal :: "real list option"
  sample_size :: nat
  para_size :: nat
  iter :: int
  landw_estimate :: "real list"
  residual_vector :: "real list"
  residuals :: "real list"
  mse :: "float64 list option"

text \<open>A method call either returns or raises; in both cases the instance is left in
  some state, which a caller that catches the exception can go on using.\<close>

datatype outcome = Returned landweber | Raised error landweber

fun state_of :: "outcome \<Rightarrow> landweber" where
  "state_of (Returned s) = s"
| "state_of (Raised e s) = s"

text \<open>\<^verbatim>\<open>__init__\<close>.  No statement of the constructor can raise for a two-dimensional
  \<open>input_matrix\<close>; the result type keeps the exception channel of the call.\<close>

definition init :: "ndarray2 \<Rightarrow> real list \<Rightarrow> real list option \<Rightarrow> error + landweber" where
  "init input_matrix' output_variable' true_signal' =
     Inr \<lparr>input_matrix = input_matrix',
          output_variable = output_variable',
          true_signal = true_signal',
          sample_size = shape0 input_matrix',
          para_size = shape1 input_matrix',
          iter = 0,
          landw_estimate = np_zeros (shape1 input_matrix'),
          residual_vector = output_variable',
          residuals = [np_sum (np_square output_variable')],
          mse = (case true_signal' of None \<Rightarrow> None | Some t \<Rightarrow> Some [])\<rparr>"

text \<open>\<^verbatim>\<open>__update_strong_error\<close>.\<close>

definition update_strong_error :: "landweber \<Rightarrow> outcome" where
  "update_strong_error s =
     (case true_signal s of
        None \<Rightarrow> Raised TypeError s
      | Some t \<Rightarrow>
          (case np_sub t (landw_estimate s) of
             Inl e \<Rightarrow> Raised e s
           | Inr d \<Rightarrow>
               (let new_mse = np_mean (np_square d)
                in case mse s of
                     None \<Rightarrow> Raised AttributeError s
                   | Some m \<Rightarrow> Returned (s\<lparr>mse := Some (np_append m new_mse)\<rparr>))))"

text \<open>The right-hand side of the first assignment of \<^verbatim>\<open>__landw_one_iteration\<close>:
  \<^verbatim>\<open>est + np.dot(np.transpose(A), y - np.dot(A, est))\<close>.\<close>

definition landw_update :: "ndarray2 \<Rightarrow> real list \<Rightarrow> real list \<Rightarrow> error + real list" where
  "landw_update A y est =
     (case np_dot A est of
        Inl e \<Rightarrow> Inl e
      | Inr Ax \<Rightarrow>
          (case np_sub y Ax of
             Inl e \<Rightarrow> Inl e
           | Inr r \<Rightarrow>
               (case np_dot (np_transpose A) r of
                  Inl e \<Rightarrow> Inl e
                | Inr g \<Rightarrow> np_add est g)))"

text \<open>The right-hand side of the second assignment: \<^verbatim>\<open>y - np.dot(A, est)\<close>.\<close>

definition landw_residual :: "ndarray2 \<Rightarrow> real list \<Rightarrow> real list \<Rightarrow> error + real list" where
  "landw_residual A y est =
     (case np_dot A est of Inl e \<Rightarrow> Inl e | Inr Ax \<Rightarrow> np_sub y Ax)"

text \<open>\<^verbatim>\<open>__landw_one_iteration\<close>.  An exception leaves the assignments made before it
  in place.\<close>

definition landw_one_iteration :: "landweber \<Rightarrow> outcome" where
  "landw_one_iteration s =
     (case landw_update (input_matrix s) (output_variable s) (landw_estimate s) of
        Inl e \<Rightarrow> Raised e s
      | Inr est \<Rightarrow>
          (let s1 = s\<lparr>landw_estimate := est\<rparr>
           in case landw_residual (input_matrix s1) (output_variable s1) (landw_estimate s1) of
                Inl e \<Rightarrow> Raised e s1
              | Inr r \<Rightarrow>
                  (let s2 = s1\<lparr>residual_vector := r\<rparr>;
                       new_residuals = np_sum (np_square (residual_vector s2));
                       s3 = s2\<lparr>residuals := np_append (residuals s2) new_residuals\<rparr>;
                       s4 = s3\<lparr>iter := iter s3 + 1\<rparr>
                   in if true_signal s4 \<noteq> None then update_strong_error s4
                      else Returned s4)))"

text \<open>\<^verbatim>\<open>landw\<close>: the loop \<^verbatim>\<open>for index in range(iter_num)\<close> runs \<open>nat iter_num\<close>
  times (not at all for \<open>iter_num \<le> 0\<close>) and stops at the first exception.\<close>

fun landw_loop :: "nat \<Rightarrow> landweber \<Rightarrow> outcome" where
  "landw_loop 0 s = Returned s"
| "landw_loop (Suc k) s =
     (case landw_one_iteration s of
        Raised e s' \<Rightarrow> Raised e s'
      | Returned s' \<Rightarrow> landw_loop k s')"

definition landw :: "landweber \<Rightarrow> int \<Rightarrow> outcome" where
  "landw s iter_num = landw_loop (nat iter_num) s"

section \<open>The interpolation helper of \<^verbatim>\<open>plot_conjugate_gradients.py\<close>\<close>

text \<open>\<^verbatim>\<open>calculate_interpolated_residual\<close>, before it is vectorised.  The body only reads
  \<open>residuals\<close> and assigns local names, so the model is a function of the trace and the
  index; the left factor's subscript is evaluated first.\<close>

definition calculate_interpolated_residual :: "real list \<Rightarrow> real \<Rightarrow> error + real" where
  "calculate_interpolated_residual residuals' index =
     (let index_ceil = \<lceil>index\<rceil>;
          index_floor = \<lfloor>index\<rfloor>;
          alpha = index - of_int index_floor
      in case getitem residuals' index_floor of
           Inl e \<Rightarrow> Inl e
         | Inr rf \<Rightarrow>
             (case getitem residuals' index_ceil of
                Inl e \<Rightarrow> Inl e
              | Inr rc \<Rightarrow> Inr ((1 - alpha) ^ 2 * rf + (1 - (1 - alpha) ^ 2) * rc)))"

section \<open>Callers and example data\<close>

text \<open>Two calls in a row, as a caller writes them: when the first call raises, the
  exception propagates and the second call is not made.\<close>

fun then_landw :: "outcome \<Rightarrow> int \<Rightarrow> outcome" where
  "then_landw (Returned s) n = landw s n"
| "then_landw (Raised e s) n = Raised e s"

text \<open>A caller that makes the calls \<open>landw(k)\<close> for each \<open>k\<close> of a list in turn and
  catches whatever they raise: the instance after all of them.\<close>

definition run_calls :: "landweber \<Rightarrow> int list \<Rightarrow> landweber" where
  "run_calls s ks = fold (\<lambda>k s'. state_of (landw s' k)) ks s"

text \<open>A small diagonal problem used for the concrete instances below.\<close>

definition demo_matrix :: ndarray2 where
  "demo_matrix = \<lparr>shape0 = 2, shape1 = 2, rows = [[1/2, 0], [0, 1/4]]\<rparr>"

definition demo_engine :: landweber where
  "demo_engine = projr (init demo_matrix [1, 2] (Some [2, 8]))"

text \<open>What every iteration keeps, however it ends.\<close>

definition step_frame :: "landweber \<Rightarrow> landweber \<Rightarrow> bool" where
  "step_frame s s' \<longleftrightarrow>
     input_matrix s' = input_matrix s \<and> output_variable s' = output_variable s
     \<and> true_signal s' = true_signal s
     \<and> (mse s' = None \<longleftrightarrow> mse s = None)
     \<and> (length (landw_estimate s) = shape1 (input_matrix s)
          \<longrightarrow> length (landw_estimate s') = shape1 (input_matrix s))
     \<and> ((residuals s' = residuals s \<and> iter s' = iter s)
         \<or> (\<exists>x. residuals s' = residuals s @ [x]) \<and> iter s' = iter s + 1)"

text \<open>The risk trace of an instance with a true signal: one entry per iteration made.\<close>

definition risk_trace_inv :: "landweber \<Rightarrow> bool" where
  "risk_trace_inv s \<longleftrightarrow>
     true_signal s \<noteq> None \<and> map_option length (mse s) = Some (nat (iter s)) \<and> 0 \<le> iter s"

text \<open>The same matrix with an observation of the wrong length.\<close>

definition mismatched_engine :: landweber where
  "mismatched_engine = projr (init demo_matrix [1, 2, 3] None)"

text \<open>The same problem with a true signal of the wrong length.\<close>

definition mistracked_engine :: landweber where
  "mistracked_engine = projr (init demo_matrix [1, 2] (Some [2, 8, 9]))"

section \<open>The update rule as the specification writes it\<close>

text \<open>Following the specification's words, \<open>new_estimate = estimate + A\<^sup>T (y - A estimate)\<close>,
  coordinate by coordinate for an \<open>n \<times> p\<close> matrix: entry \<open>j\<close> of the new estimate is
  \<open>x\<^sub>j + \<Sum>\<^sub>i A\<^sub>i\<^sub>j (y\<^sub>i - \<Sum>\<^sub>k A\<^sub>i\<^sub>k x\<^sub>k)\<close>.\<close>

definition spec_landweber_step :: "ndarray2 \<Rightarrow> real list \<Rightarrow> real list \<Rightarrow> real list" where
  "spec_landweber_step A y x =
     map (\<lambda>j. x ! j + (\<Sum>i<shape0 A. rows A ! i ! j *
                          (y ! i - (\<Sum>k<shape1 A. rows A ! i ! k * x ! k))))
         [0..<shape1 A]"

text \<open>Following the specification's words, the precondition of the Landweber engine:
  the update matrix \<open>I - A\<^sup>T A\<close> is a contraction, that is, \<open>v - A\<^sup>T A v\<close> is never longer
  than \<open>v\<close> in the Euclidean norm (norms squared, coordinate by coordinate).\<close>

definition contractive :: "ndarray2 \<Rightarrow> bool" where
  "contractive A \<longleftrightarrow>
     (\<forall>v. length v = shape1 A \<longrightarrow>
        (\<Sum>j<shape1 A. (v ! j - (\<Sum>i<shape0 A. rows A ! i ! j *
                                   (\<Sum>k<shape1 A. rows A ! i ! k * v ! k))) ^ 2)
          \<le> (\<Sum>j<shape1 A. (v ! j) ^ 2))"

text \<open>The squared norm of the residual \<open>y - A x\<close>.\<close>

definition sq_residual :: "ndarray2 \<Rightarrow> real list \<Rightarrow> real list \<Rightarrow> real" where
  "sq_residual A y x =
     (\<Sum>i<shape0 A. (y ! i - (\<Sum>k<shape1 A. rows A ! i ! k * x ! k)) ^ 2)"

text \<open>What the iteration keeps when shapes fit and the precondition holds: the last
  entry of the trace is the squared residual norm of the current estimate, and the
  trace does not increase.\<close>

definition monotone_inv :: "ndarray2 \<Rightarrow> real list \<Rightarrow> landweber \<Rightarrow> bool" where
  "monotone_inv A y s \<longleftrightarrow>
     input_matrix s = A \<and> output_variable s = y \<and> length (landw_estimate s) = shape1 A
     \<and> residuals s \<noteq> [] \<and> last (residuals s) = sq_residual A y (landw_estimate s)
     \<and> (\<forall>m. m + 1 < length (residuals s) \<longrightarrow> residuals s ! (m + 1) \<le> residuals s ! m)"

section \<open>Float64 rounding\<close>

text \<open>
  A float64 number has 53 significant bits.  The result of an arithmetic operation is
  the exact result rounded to the nearest such number, a tie going to the neighbour
  with an even significand.  In the binade \<open>2\<^sup>e \<le> |x| < 2\<^sup>e\<^sup>+\<^sup>1\<close> the float64 numbers are
  the integer multiples of \<open>2\<^sup>e\<^sup>-\<^sup>5\<^sup>2\<close>; below \<open>2\<^sup>-\<^sup>1\<^sup>0\<^sup>2\<^sup>2\<close> (subnormal numbers) the spacing stays
  \<open>2\<^sup>-\<^sup>1\<^sup>0\<^sup>7\<^sup>4\<close>.
\<close>

text \<open>The nearest integer, a tie going to the even one.\<close>

definition round_half_even :: "real \<Rightarrow> int" where
  "round_half_even x =
     (let f = \<lfloor>x\<rfloor>; d = x - of_int f
      in if d < 1/2 then f else if 1/2 < d then f + 1 else if even f then f else f + 1)"

text \<open>The exponent \<open>e\<close> with \<open>2\<^sup>e \<le> x < 2\<^sup>e\<^sup>+\<^sup>1\<close> of a positive \<open>x\<close>, found by halving or
  doubling; the first argument bounds the number of steps, and \<open>binade\<close> passes a bound
  that is always enough (lemma \<open>binade_bounds\<close>).\<close>

fun binade_aux :: "nat \<Rightarrow> real \<Rightarrow> int" where
  "binade_aux 0 x = 0"
| "binade_aux (Suc n) x =
     (if 2 \<le> x then binade_aux n (x / 2) + 1
      else if x < 1 then binade_aux n (2 * x) - 1
      else 0)"

definition binade :: "real \<Rightarrow> int" where
  "binade x = binade_aux (nat \<lfloor>x\<rfloor> + nat \<lfloor>1 / x\<rfloor> + 2) x"

definition fl64 :: "real \<Rightarrow> real" where
  "fl64 x =
     (if x = 0 then 0
      else let e = max (binade \<bar>x\<bar>) (- 1022); u = 2 powi (e - 52)
           in of_int (round_half_even (x / u)) * u)"

section \<open>The class with rounded arithmetic\<close>

text \<open>
  The same NumPy operations and the same methods, with the result of every floating
  point operation passed through a rounding function \<open>rnd\<close>; with \<open>rnd = fl64\<close> this is
  the float64 program, with the identity it is the exact embedding above (lemmas
  \<open>\<dots>_exact\<close>).  The sources leave two things to NumPy: \<^verbatim>\<open>np.dot\<close> hands the
  products to a BLAS routine, which may round a product before adding it or add it
  unrounded (fused multiply-add), so that choice is the parameter \<open>fused\<close>; and sums,
  in \<^verbatim>\<open>np.dot\<close> as in \<^verbatim>\<open>np.sum\<close>, are taken in index order, which is what NumPy
  does for short arrays (\<^verbatim>\<open>np.sum\<close> adds eight entries or more in blocks, and a BLAS
  routine may reorder a long dot product).  \<^verbatim>\<open>x**2\<close> is the rounded product \<open>x * x\<close>.
\<close>

definition vdot_r :: "(real \<Rightarrow> real) \<Rightarrow> bool \<Rightarrow> real list \<Rightarrow> real list \<Rightarrow> real" where
  "vdot_r rnd fused xs ys =
     foldl (\<lambda>acc (a, b). if fused then rnd (acc + a * b) else rnd (acc + rnd (a * b)))
       0 (zip xs ys)"

definition np_dot_r ::
  "(real \<Rightarrow> real) \<Rightarrow> bool \<Rightarrow> ndarray2 \<Rightarrow> real list \<Rightarrow> error + real list" where
  "np_dot_r rnd fused A x =
     (if shape1 A = length x then Inr (map (\<lambda>r. vdot_r rnd fused r x) (rows A))
      else Inl ValueError)"

definition np_sub_r :: "(real \<Rightarrow> real) \<Rightarrow> real list \<Rightarrow> real list \<Rightarrow> error + real list" where
  "np_sub_r rnd a b = np_broadcast (\<lambda>u v. rnd (u - v)) a b"

definition np_add_r :: "(real \<Rightarrow> real) \<Rightarrow> real list \<Rightarrow> real list \<Rightarrow> error + real list" where
  "np_add_r rnd a b = np_broadcast (\<lambda>u v. rnd (u + v)) a b"

definition np_square_r :: "(real \<Rightarrow> real) \<Rightarrow> real list \<Rightarrow> real list" where
  "np_square_r rnd a = map (\<lambda>x. rnd (x * x)) a"

definition np_sum_r :: "(real \<Rightarrow> real) \<Rightarrow> real list \<Rightarrow> real" where
  "np_sum_r rnd a = foldl (\<lambda>acc v. rnd (acc + v)) 0 a"

definition np_mean_r :: "(real \<Rightarrow> real) \<Rightarrow> real list \<Rightarrow> float64" where
  "np_mean_r rnd a =
     (if a = [] then NaN else Num (rnd (np_sum_r rnd a / real (length a))))"

definition init_r ::
  "(real \<Rightarrow> real) \<Rightarrow> ndarray2 \<Rightarrow> real list \<Rightarrow> real list option \<Rightarrow> error + landweber" where
  "init_r rnd input_matrix' output_variable' true_signal' =
     Inr \<lparr>input_matrix = input_matrix',
          output_variable = output_variable',
          true_signal = true_signal',
          sample_size = shape0 input_matrix',
          para_size = shape1 input_matrix',
          iter = 0,
          landw_estimate = np_zeros (shape1 input_matrix'),
          residual_vector = output_variable',
          residuals = [np_sum_r rnd (np_square_r rnd output_variable')],
          mse = (case true_signal' of None \<Rightarrow> None | Some t \<Rightarrow> Some [])\<rparr>"

definition update_strong_error_r :: "(real \<Rightarrow> real) \<Rightarrow> landweber \<Rightarrow> outcome" where
  "update_strong_error_r rnd s =
     (case true_signal s of
        None \<Rightarrow> Raised TypeError s
      | Some t \<Rightarrow>
          (case np_sub_r rnd t (landw_estimate s) of
             Inl e \<Rightarrow> Raised e s
           | Inr d \<Rightarrow>
               (let new_mse = np_mean_r rnd (np_square_r rnd d)
                in case mse s of
                     None \<Rightarrow> Raised AttributeError s
                   | Some m \<Rightarrow> Returned (s\<lparr>mse := Some (np_append m new_mse)\<rparr>))))"

definition landw_update_r ::
  "(real \<Rightarrow> real) \<Rightarrow> bool \<Rightarrow> ndarray2 \<Rightarrow> real list \<Rightarrow> real list \<Rightarrow> error + real list" where
  "landw_update_r rnd fused A y est =
     (case np_dot_r rnd fused A est of
        Inl e \<Rightarrow> Inl e
      | Inr Ax \<Rightarrow>
          (case np_sub_r rnd y Ax of
             Inl e \<Rightarrow> Inl e
           | Inr r \<Rightarrow>
               (case np_dot_r rnd fused (np_transpose A) r of
                  Inl e \<Rightarrow> Inl e
                | Inr g \<Rightarrow> np_add_r rnd est g)))"

definition landw_residual_r ::
  "(real \<Rightarrow> real) \<Rightarrow> bool \<Rightarrow> ndarray2 \<Rightarrow> real list \<Rightarrow> real list \<Rightarrow> error + real list" where
  "landw_residual_r rnd fused A y est =
     (case np_dot_r rnd fused A est of Inl e \<Rightarrow> Inl e | Inr Ax \<Rightarrow> np_sub_r rnd y Ax)"

definition landw_one_iteration_r :: "(real \<Rightarrow> real) \<Rightarrow> bool \<Rightarrow> landweber \<Rightarrow> outcome" where
  "landw_one_iteration_r rnd fused s =
     (case landw_update_r rnd fused (input_matrix s) (output_variable s) (landw_estimate s) of
        Inl e \<Rightarrow> Raised e s
      | Inr est \<Rightarrow>
          (let s1 = s\<lparr>landw_estimate := est\<rparr>
           in case landw_residual_r rnd fused (input_matrix s1) (output_variable s1)
                     (landw_estimate s1) of
                Inl e \<Rightarrow> Raised e s1
              | Inr r \<Rightarrow>
                  (let s2 = s1\<lparr>residual_vector := r\<rparr>;
                       new_residuals = np_sum_r rnd (np_square_r rnd (residual_vector s2));
                       s3 = s2\<lparr>residuals := np_append (residuals s2) new_residuals\<rparr>;
                       s4 = s3\<lparr>iter := iter s3 + 1\<rparr>
                   in if true_signal s4 \<noteq> None then update_strong_error_r rnd s4
                      else Returned s4)))"

fun landw_loop_r :: "(real \<Rightarrow> real) \<Rightarrow> bool \<Rightarrow> nat \<Rightarrow> landweber \<Rightarrow> outcome" where
  "landw_loop_r rnd fused 0 s = Returned s"
| "landw_loop_r rnd fused (Suc k) s =
     (case landw_one_iteration_r rnd fused s of
        Raised e s' \<Rightarrow> Raised e s'
      | Returned s' \<Rightarrow> landw_loop_r rnd fused k s')"

definition landw_r :: "(real \<Rightarrow> real) \<Rightarrow> bool \<Rightarrow> landweber \<Rightarrow> int \<Rightarrow> outcome" where
  "landw_r rnd fused s iter_num = landw_loop_r rnd fused (nat iter_num) s"

text \<open>A \<open>2 \<times> 1\<close> problem of float64 numbers: the matrix entries are \<open>0.375\<close> and \<open>0.5\<close>,
  the observation holds the float64 numbers nearest to \<open>-0.8\<close> and \<open>0.6\<close>.\<close>

definition skew_matrix :: ndarray2 where
  "skew_matrix = \<lparr>shape0 = 2, shape1 = 1, rows = [[3/8], [1/2]]\<rparr>"

definition skew_observation :: "real list" where
  "skew_observation =
     [- (3602879701896397 / 4503599627370496), 5404319552844595 / 9007199254740992]"

definition skew_engine :: landweber where
  "skew_engine = projr (init_r fl64 skew_matrix skew_observation None)"

section \<open>Incremental iteration\<close>

lemma landw_loop_add:
  "landw_loop (m + k) s =
     (case landw_loop m s of Raised e s' \<Rightarrow> Raised e s' | Returned s' \<Rightarrow> landw_loop k s')"
  by (induction m arbitrary: s) (auto split: outcome.splits)

lemma then_landw_loop:
  "then_landw (landw_loop m s) (int k) = landw_loop (m + k) s"
  by (cases "landw_loop m s") (simp_all add: landw_loop_add landw_def)

lemma funpow_then_landw:
  "((\<lambda>r. then_landw r 1) ^^ n) (Returned s) = landw_loop n s"
proof (induction n)
  case 0
  show ?case by simp
next
  case (Suc n)
  have "then_landw (landw_loop n s) (int 1) = landw_loop (n + 1) s"
    by (rule then_landw_loop)
  with Suc show ?case by simp
qed

text \<open>
  C5.  For non-negative \<open>a\<close> and \<open>b\<close>, the call \<open>landw(a)\<close> followed by \<open>landw(b)\<close>
  leaves the instance in exactly the state (and with exactly the outcome) of the
  single call \<open>landw(a + b)\<close>; and \<open>landw(n)\<close> is \<open>n\<close> calls \<open>landw(1)\<close> in a row.
  Iteration continues from the current state.
\<close>

theorem landw_incremental:
  assumes "0 \<le> a" and "0 \<le> b"
  shows "then_landw (landw s a) b = landw s (a + b)
       \<and> landw s (int n) = ((\<lambda>r. then_landw r 1) ^^ n) (Returned s)"
proof -
  have "then_landw (landw_loop (nat a) s) (int (nat b)) = landw_loop (nat a + nat b) s"
    by (rule then_landw_loop)
  moreover have "nat (a + b) = nat a + nat b"
    using assms by (simp add: nat_add_distrib)
  ultimately have "then_landw (landw s a) b = landw s (a + b)"
    using assms by (simp add: landw_def)
  moreover have "landw s (int n) = ((\<lambda>r. then_landw r 1) ^^ n) (Returned s)"
    by (simp add: funpow_then_landw landw_def)
  ultimately show ?thesis by simp
qed

theorem landw_incremental_witness:
  "(0::int) \<le> 1 \<and> (0::int) \<le> 1
     \<and> then_landw (landw demo_engine 1) 1 = landw demo_engine (1 + 1)
     \<and> landw demo_engine (int 2) = ((\<lambda>r. then_landw r 1) ^^ 2) (Returned demo_engine)"
  using landw_incremental [of 1 1 demo_engine 2] by simp

text \<open>
  C10.  A call \<open>landw(iter_num)\<close> with \<open>iter_num \<le> 0\<close> returns normally and leaves
  every attribute of the instance as it was.
\<close>

theorem landw_nonpositive_noop:
  "iter_num \<le> 0 \<Longrightarrow> landw s iter_num = Returned s"
  by (simp add: landw_def)

theorem landw_nonpositive_noop_witness:
  "(-3::int) \<le> 0 \<and> landw demo_engine (-3) = Returned demo_engine"
  using landw_nonpositive_noop [of "-3" demo_engine] by simp

section \<open>Interpolation of the residual trace\<close>

lemma getitem_in_range:
  "0 \<le> k \<Longrightarrow> k < int (length a) \<Longrightarrow> getitem a k = Inr (a ! nat k)"
  by (simp add: getitem_def Let_def)

lemma getitem_beyond:
  "int (length a) \<le> k \<Longrightarrow> getitem a k = Inl IndexError"
  by (simp add: getitem_def Let_def)

lemma getitem_error:
  "getitem a k = Inl e \<Longrightarrow> e = IndexError"
  by (auto simp: getitem_def Let_def split: if_splits)

text \<open>
  C6.  For a trace \<open>res\<close> and a real index \<open>t\<close> with \<open>0 \<le> t \<le> len(res) - 1\<close>, the
  helper returns the quadratic blend
  \<open>(1 - \<alpha>)\<^sup>2 * res[floor t] + (1 - (1 - \<alpha>)\<^sup>2) * res[ceil t]\<close> with \<open>\<alpha> = t - floor t\<close>;
  at an integer index \<open>k\<close> inside the trace it returns exactly \<open>res[k]\<close>.
\<close>

theorem interpolation_quadratic_blend:
  "(0 \<le> t \<and> t \<le> real (length res) - 1 \<longrightarrow>
      calculate_interpolated_residual res t =
        Inr ((1 - (t - of_int \<lfloor>t\<rfloor>)) ^ 2 * res ! nat \<lfloor>t\<rfloor>
             + (1 - (1 - (t - of_int \<lfloor>t\<rfloor>)) ^ 2) * res ! nat \<lceil>t\<rceil>))
   \<and> (k < length res \<longrightarrow> calculate_interpolated_residual res (real k) = Inr (res ! k))"
proof (intro conjI impI)
  assume t: "0 \<le> t \<and> t \<le> real (length res) - 1"
  then have f0: "0 \<le> \<lfloor>t\<rfloor>" by simp
  from t have "t \<le> of_int (int (length res) - 1)" by simp
  then have c1: "\<lceil>t\<rceil> \<le> int (length res) - 1" by (simp only: ceiling_le_iff)
  have "\<lfloor>t\<rfloor> \<le> \<lceil>t\<rceil>" by (rule floor_le_ceiling)
  with c1 have f1: "\<lfloor>t\<rfloor> < int (length res)" by linarith
  from t have c0: "0 \<le> \<lceil>t\<rceil>" by (simp add: ceiling_le_iff le_ceiling_iff)
  from c1 have c2: "\<lceil>t\<rceil> < int (length res)" by linarith
  show "calculate_interpolated_residual res t =
        Inr ((1 - (t - of_int \<lfloor>t\<rfloor>)) ^ 2 * res ! nat \<lfloor>t\<rfloor>
             + (1 - (1 - (t - of_int \<lfloor>t\<rfloor>)) ^ 2) * res ! nat \<lceil>t\<rceil>)"
    by (simp add: calculate_interpolated_residual_def Let_def
        getitem_in_range [OF f0 f1] getitem_in_range [OF c0 c2])
next
  assume k: "k < length res"
  then have "getitem res (int k) = Inr (res ! k)"
    by (simp add: getitem_in_range)
  then show "calculate_interpolated_residual res (real k) = Inr (res ! k)"
    by (simp add: calculate_interpolated_residual_def Let_def)
qed

theorem interpolation_quadratic_blend_witness:
  "0 \<le> (1/2::real) \<and> (1/2::real) \<le> real (length [4, 2::real]) - 1
   \<and> calculate_interpolated_residual [4, 2] (1/2) = Inr (5/2)
   \<and> (1::nat) < length [4, 2::real]
   \<and> calculate_interpolated_residual [4, 2] (real 1) = Inr 2"
  using interpolation_quadratic_blend [of "1/2" "[4, 2]" 1]
  by (simp add: power2_eq_square)

text \<open>
  C7.  For an index \<open>t\<close> above the highest index of the trace, \<open>t > len(res) - 1\<close>,
  the helper raises \<^verbatim>\<open>IndexError\<close>.  The call is a function of the trace and the
  index alone: its body assigns local names only, so there is no state it could change.
\<close>

theorem interpolation_out_of_range:
  assumes "real (length res) - 1 < t"
  shows "calculate_interpolated_residual res t = Inl IndexError"
proof -
  from assms have "of_int (int (length res) - 1) < t" by simp
  then have "int (length res) - 1 < \<lceil>t\<rceil>" by (simp only: less_ceiling_iff)
  then have "int (length res) \<le> \<lceil>t\<rceil>" by linarith
  then have c: "getitem res \<lceil>t\<rceil> = Inl IndexError" by (rule getitem_beyond)
  show ?thesis
  proof (cases "getitem res \<lfloor>t\<rfloor>")
    case (Inl e)
    then show ?thesis
      by (simp add: calculate_interpolated_residual_def Let_def getitem_error [OF Inl])
  next
    case (Inr v)
    with c show ?thesis
      by (simp add: calculate_interpolated_residual_def Let_def)
  qed
qed

theorem interpolation_out_of_range_witness:
  "real (length [4, 2::real]) - 1 < 3/2
   \<and> calculate_interpolated_residual [4, 2] (3/2) = Inl IndexError"
  using interpolation_out_of_range [of "[4, 2]" "3/2"] by simp

section \<open>One iteration, case by case\<close>

lemma np_broadcast_error: "np_broadcast f a b = Inl e \<Longrightarrow> e = ValueError"
  by (auto simp: np_broadcast_def split: if_splits)

lemma np_broadcast_length:
  "np_broadcast f a b = Inr c \<Longrightarrow> length a = length b \<Longrightarrow> length c = length b"
  by (auto simp: np_broadcast_def split: if_splits)

lemma np_dot_length: "np_dot A x = Inr v \<Longrightarrow> length v = length (rows A)"
  by (auto simp: np_dot_def split: if_splits)

lemma landw_update_length:
  assumes "landw_update A y est = Inr est'" and "length est = shape1 A"
  shows "length est' = shape1 A"
proof -
  from assms(1) obtain Ax r g where
    g: "np_dot (np_transpose A) r = Inr g" and a: "np_add est g = Inr est'"
    by (auto simp: landw_update_def split: sum.splits)
  from g have "length g = shape1 A"
    by (auto simp: np_dot_def np_transpose_def split: if_splits)
  with a assms(2) show ?thesis
    by (simp add: np_add_def np_broadcast_length)
qed

text \<open>The four ways one iteration can end.\<close>

lemma landw_one_iteration_cases:
  fixes s :: landweber
  defines "A \<equiv> input_matrix s" and "y \<equiv> output_variable s"
  obtains
    (update_raises) e where "landw_update A y (landw_estimate s) = Inl e"
      and "landw_one_iteration s = Raised e s"
  | (residual_raises) e est where "landw_update A y (landw_estimate s) = Inr est"
      and "landw_residual A y est = Inl e"
      and "landw_one_iteration s = Raised e (s\<lparr>landw_estimate := est\<rparr>)"
  | (plain) est r where "landw_update A y (landw_estimate s) = Inr est"
      and "landw_residual A y est = Inr r" and "true_signal s = None"
      and "landw_one_iteration s =
             Returned (s\<lparr>landw_estimate := est, residual_vector := r,
                         residuals := residuals s @ [np_sum (np_square r)],
                         iter := iter s + 1\<rparr>)"
  | (tracked) est r where "landw_update A y (landw_estimate s) = Inr est"
      and "landw_residual A y est = Inr r" and "true_signal s \<noteq> None"
      and "landw_one_iteration s =
             update_strong_error (s\<lparr>landw_estimate := est, residual_vector := r,
                         residuals := residuals s @ [np_sum (np_square r)],
                         iter := iter s + 1\<rparr>)"
proof (cases "landw_update A y (landw_estimate s)")
  case (Inl e)
  then show ?thesis
    using update_raises by (simp add: landw_one_iteration_def A_def y_def)
next
  case est: (Inr est)
  show ?thesis
  proof (cases "landw_residual A y est")
    case (Inl e)
    with est show ?thesis
      using residual_raises by (simp add: landw_one_iteration_def A_def y_def)
  next
    case (Inr r)
    with est show ?thesis
      using plain [of est r] tracked [of est r]
      by (cases "true_signal s")
         (simp_all add: landw_one_iteration_def A_def y_def Let_def np_append_def)
  qed
qed

lemma update_strong_error_cases:
  obtains
    (raises) e where "update_strong_error s = Raised e s"
  | (returns) t d m where "true_signal s = Some t" and "np_sub t (landw_estimate s) = Inr d"
      and "mse s = Some m"
      and "update_strong_error s = Returned (s\<lparr>mse := Some (m @ [np_mean (np_square d)])\<rparr>)"
proof (cases "true_signal s")
  case None
  then show ?thesis using raises by (simp add: update_strong_error_def)
next
  case t: (Some t)
  show ?thesis
  proof (cases "np_sub t (landw_estimate s)")
    case (Inl e)
    with t show ?thesis using raises by (simp add: update_strong_error_def)
  next
    case d: (Inr d)
    show ?thesis
    proof (cases "mse s")
      case None
      with t d show ?thesis using raises by (simp add: update_strong_error_def)
    next
      case (Some m)
      with t d show ?thesis
        using returns [of t d m] by (simp add: update_strong_error_def np_append_def)
    qed
  qed
qed

lemma landw_one_iteration_frame: "step_frame s (state_of (landw_one_iteration s))"
proof (cases s rule: landw_one_iteration_cases)
  case (update_raises e)
  then show ?thesis by (simp add: step_frame_def)
next
  case (residual_raises e est)
  then show ?thesis by (simp add: step_frame_def landw_update_length)
next
  case (plain est r)
  then show ?thesis by (simp add: step_frame_def landw_update_length)
next
  case (tracked est r)
  let ?s4 = "s\<lparr>landw_estimate := est, residual_vector := r,
                residuals := residuals s @ [np_sum (np_square r)], iter := iter s + 1\<rparr>"
  show ?thesis
  proof (cases ?s4 rule: update_strong_error_cases)
    case (raises e)
    with tracked show ?thesis by (simp add: step_frame_def landw_update_length)
  next
    case (returns t d m)
    with tracked show ?thesis by (simp add: step_frame_def landw_update_length)
  qed
qed

section \<open>Invariants of the traces\<close>

lemma landw_loop_invariant:
  assumes "P s" and "\<And>s. P s \<Longrightarrow> P (state_of (landw_one_iteration s))"
  shows "P (state_of (landw_loop n s))"
  using assms(1)
proof (induction n arbitrary: s)
  case 0
  then show ?case by simp
next
  case (Suc n)
  from Suc.prems have step: "P (state_of (landw_one_iteration s))" by (rule assms(2))
  show ?case
  proof (cases "landw_one_iteration s")
    case (Returned s')
    with step Suc.IH [of s'] show ?thesis by simp
  next
    case (Raised e s')
    with step show ?thesis by simp
  qed
qed

lemma run_calls_invariant:
  assumes "P s" and "\<And>s. P s \<Longrightarrow> P (state_of (landw_one_iteration s))"
  shows "P (run_calls s ks)"
  using assms(1)
proof (induction ks arbitrary: s)
  case Nil
  then show ?case by (simp add: run_calls_def)
next
  case (Cons k ks)
  have "P (state_of (landw s k))"
    unfolding landw_def using Cons.prems assms(2) by (rule landw_loop_invariant)
  then have "P (run_calls (state_of (landw s k)) ks)" by (rule Cons.IH)
  then show ?case by (simp add: run_calls_def)
qed

lemma init_fields:
  assumes "init A y ts = Inr s0"
  shows "input_matrix s0 = A" and "output_variable s0 = y" and "true_signal s0 = ts"
    and "iter s0 = 0" and "landw_estimate s0 = replicate (shape1 A) 0"
    and "residuals s0 = [sum_list (map (\<lambda>v. v ^ 2) y)]"
    and "mse s0 = (case ts of None \<Rightarrow> None | Some t \<Rightarrow> Some [])"
    and "residual_vector s0 = y"
  using assms by (auto simp: init_def np_zeros_def np_sum_def np_square_def)

text \<open>The attributes bound at construction stay as they were, and the estimate keeps
  its length.\<close>

lemma run_calls_bound:
  assumes "init A y ts = Inr s0"
  shows "input_matrix (run_calls s0 ks) = A \<and> output_variable (run_calls s0 ks) = y
       \<and> true_signal (run_calls s0 ks) = ts
       \<and> length (landw_estimate (run_calls s0 ks)) = shape1 A
       \<and> (mse (run_calls s0 ks) = None \<longleftrightarrow> ts = None)"
proof (rule run_calls_invariant)
  show "input_matrix s0 = A \<and> output_variable s0 = y \<and> true_signal s0 = ts
       \<and> length (landw_estimate s0) = shape1 A \<and> (mse s0 = None \<longleftrightarrow> ts = None)"
    using init_fields [OF assms] by (simp split: option.splits)
next
  fix s :: landweber
  assume "input_matrix s = A \<and> output_variable s = y \<and> true_signal s = ts
       \<and> length (landw_estimate s) = shape1 A \<and> (mse s = None \<longleftrightarrow> ts = None)"
  with landw_one_iteration_frame [of s]
  show "input_matrix (state_of (landw_one_iteration s)) = A
       \<and> output_variable (state_of (landw_one_iteration s)) = y
       \<and> true_signal (state_of (landw_one_iteration s)) = ts
       \<and> length (landw_estimate (state_of (landw_one_iteration s))) = shape1 A
       \<and> (mse (state_of (landw_one_iteration s)) = None \<longleftrightarrow> ts = None)"
    by (simp add: step_frame_def)
qed

lemma run_calls_trace:
  assumes "init A y ts = Inr s0"
  shows "int (length (residuals (run_calls s0 ks))) = iter (run_calls s0 ks) + 1
       \<and> prefix [sum_list (map (\<lambda>v. v ^ 2) y)] (residuals (run_calls s0 ks))"
proof (rule run_calls_invariant)
  show "int (length (residuals s0)) = iter s0 + 1
       \<and> prefix [sum_list (map (\<lambda>v. v ^ 2) y)] (residuals s0)"
    using init_fields [OF assms] by simp
next
  fix s :: landweber
  assume "int (length (residuals s)) = iter s + 1
       \<and> prefix [sum_list (map (\<lambda>v. v ^ 2) y)] (residuals s)"
  with landw_one_iteration_frame [of s]
  show "int (length (residuals (state_of (landw_one_iteration s))))
          = iter (state_of (landw_one_iteration s)) + 1
       \<and> prefix [sum_list (map (\<lambda>v. v ^ 2) y)] (residuals (state_of (landw_one_iteration s)))"
    by (auto simp: step_frame_def)
qed

lemma landw_prefix: "prefix (residuals s) (residuals (state_of (landw s k)))"
  unfolding landw_def
proof (rule landw_loop_invariant [where P = "\<lambda>s'. prefix (residuals s) (residuals s')"])
  show "prefix (residuals s) (residuals s)" by simp
next
  fix s' :: landweber
  assume "prefix (residuals s) (residuals s')"
  moreover have "prefix (residuals s') (residuals (state_of (landw_one_iteration s')))"
    using landw_one_iteration_frame [of s'] by (auto simp: step_frame_def)
  ultimately show "prefix (residuals s) (residuals (state_of (landw_one_iteration s')))"
    by (rule prefix_order.trans)
qed

lemma landw_one_iteration_appends:
  assumes "landw_one_iteration s = Returned s'"
  shows "residuals s' = residuals s @ [sum_list (map (\<lambda>v. v ^ 2) (residual_vector s'))]
       \<and> iter s' = iter s + 1"
proof (cases s rule: landw_one_iteration_cases)
  case (update_raises e)
  with assms show ?thesis by simp
next
  case (residual_raises e est)
  with assms show ?thesis by simp
next
  case (plain est r)
  with assms show ?thesis by (auto simp: np_sum_def np_square_def)
next
  case (tracked est r)
  let ?s4 = "s\<lparr>landw_estimate := est, residual_vector := r,
                residuals := residuals s @ [np_sum (np_square r)], iter := iter s + 1\<rparr>"
  show ?thesis
  proof (cases ?s4 rule: update_strong_error_cases)
    case (raises e)
    with tracked assms show ?thesis by simp
  next
    case (returns t d m)
    with tracked assms show ?thesis by (auto simp: np_sum_def np_square_def)
  qed
qed

lemmas model_defs = init_def np_zeros_def np_sum_def np_square_def np_dot_def np_transpose_def
  np_sub_def np_add_def np_broadcast_def np_mean_def np_append_def vdot_def
  landw_update_def landw_residual_def landw_one_iteration_def update_strong_error_def
  landw_def run_calls_def demo_matrix_def demo_engine_def Let_def

lemma demo_init: "init demo_matrix [1, 2] (Some [2, 8]) = Inr demo_engine"
  by (simp add: demo_engine_def init_def)

lemma demo_step1: "landw demo_engine 1 = Returned
  \<lparr>input_matrix = demo_matrix, output_variable = [1, 2], true_signal = Some [2, 8],
   sample_size = 2, para_size = 2, iter = 1, landw_estimate = [1/2, 1/2],
   residual_vector = [3/4, 15/8], residuals = [5, 261/64], mse = Some [Num (117/4)]\<rparr>"
  by (simp add: model_defs power2_eq_square eval_nat_numeral upt_rec)

lemma demo_run: "run_calls demo_engine [1, -2, 1] =
  \<lparr>input_matrix = demo_matrix, output_variable = [1, 2], true_signal = Some [2, 8],
   sample_size = 2, para_size = 2, iter = 2, landw_estimate = [7/8, 31/32],
   residual_vector = [9/16, 225/128], residuals = [5, 261/64, 55809/16384],
   mse = Some [Num (117/4), Num (51921/2048)]\<rparr>"
  by (simp add: model_defs power2_eq_square eval_nat_numeral upt_rec)

lemma demo_step3: "landw_one_iteration (run_calls demo_engine [1, -2, 1]) = Returned
  \<lparr>input_matrix = demo_matrix, output_variable = [1, 2], true_signal = Some [2, 8],
   sample_size = 2, para_size = 2, iter = 3, landw_estimate = [37/32, 721/512],
   residual_vector = [27/64, 3375/2048],
   residuals = [5, 261/64, 55809/16384, 12137121/4194304],
   mse = Some [Num (117/4), Num (51921/2048), Num (11577249/524288)]\<rparr>"
  unfolding demo_run
  by (simp add: model_defs power2_eq_square eval_nat_numeral upt_rec)

text \<open>
  C3.  For an instance built by the constructor and any sequence of \<open>landw\<close> calls
  (the caller going on even after a call that raised): the residual trace has
  \<open>iter + 1\<close> entries, its entry 0 is the squared norm of the observation vector, a
  further call keeps the present trace as a prefix, and an iteration that returns
  appends exactly one entry, the squared norm of the new residual vector.
\<close>

theorem residual_trace_invariant:
  assumes "init A y ts = Inr s0" and "s = run_calls s0 ks"
  shows "int (length (residuals s)) = iter s + 1
       \<and> residuals s ! 0 = sum_list (map (\<lambda>v. v ^ 2) y)
       \<and> prefix (residuals s) (residuals (state_of (landw s k)))
       \<and> (\<forall>s'. landw_one_iteration s = Returned s' \<longrightarrow>
            residuals s' = residuals s @ [sum_list (map (\<lambda>v. v ^ 2) (residual_vector s'))]
            \<and> iter s' = iter s + 1)"
proof -
  from run_calls_trace [OF assms(1), of ks] assms(2)
  have len: "int (length (residuals s)) = iter s + 1"
    and pre: "prefix [sum_list (map (\<lambda>v. v ^ 2) y)] (residuals s)" by simp_all
  from pre have "residuals s ! 0 = sum_list (map (\<lambda>v. v ^ 2) y)"
    by (auto simp: prefix_def)
  with len show ?thesis
    using landw_prefix [of s k] landw_one_iteration_appends [of s] by blast
qed

theorem residual_trace_invariant_witness:
  "init demo_matrix [1, 2] (Some [2, 8]) = Inr demo_engine
   \<and> int (length (residuals (run_calls demo_engine [1, -2, 1])))
       = iter (run_calls demo_engine [1, -2, 1]) + 1
   \<and> residuals (run_calls demo_engine [1, -2, 1]) = [5, 261/64, 55809/16384]
   \<and> residuals (run_calls demo_engine [1, -2, 1]) ! 0 = 5
   \<and> prefix (residuals (run_calls demo_engine [1, -2, 1]))
        (residuals (state_of (landw (run_calls demo_engine [1, -2, 1]) 3)))
   \<and> residuals (state_of (landw_one_iteration (run_calls demo_engine [1, -2, 1])))
       = residuals (run_calls demo_engine [1, -2, 1]) @ [12137121/4194304]"
  using residual_trace_invariant [OF demo_init refl, of "[1, -2, 1]" 3]
  by (simp add: demo_init demo_run demo_step3 [unfolded demo_run] power2_eq_square)

section \<open>The risk trace\<close>

lemma landw_one_iteration_tracked:
  assumes "landw_one_iteration s = Returned s'" and "risk_trace_inv s"
  shows "risk_trace_inv s'"
proof (cases s rule: landw_one_iteration_cases)
  case (update_raises e)
  with assms show ?thesis by simp
next
  case (residual_raises e est)
  with assms show ?thesis by simp
next
  case (plain est r)
  with assms show ?thesis by (simp add: risk_trace_inv_def)
next
  case (tracked est r)
  let ?s4 = "s\<lparr>landw_estimate := est, residual_vector := r,
                residuals := residuals s @ [np_sum (np_square r)], iter := iter s + 1\<rparr>"
  show ?thesis
  proof (cases ?s4 rule: update_strong_error_cases)
    case (raises e)
    with tracked assms show ?thesis by simp
  next
    case (returns t d m)
    with tracked assms show ?thesis by (auto simp: risk_trace_inv_def nat_add_distrib)
  qed
qed

lemma landw_loop_tracked:
  assumes "landw_loop n s = Returned s'" and "risk_trace_inv s"
  shows "risk_trace_inv s'"
  using assms
proof (induction n arbitrary: s)
  case 0
  then show ?case by simp
next
  case (Suc n)
  from Suc.prems(1) obtain s1 where s1: "landw_one_iteration s = Returned s1"
    and rest: "landw_loop n s1 = Returned s'"
    by (auto split: outcome.splits)
  from s1 Suc.prems(2) have "risk_trace_inv s1" by (rule landw_one_iteration_tracked)
  with rest show ?case by (rule Suc.IH)
qed

lemma then_landw_Returned:
  "then_landw r k = Returned s \<Longrightarrow> \<exists>s1. r = Returned s1 \<and> landw s1 k = Returned s"
  by (cases r) simp_all

lemma calls_tracked:
  assumes "foldl then_landw (Returned s0) ks = Returned s" and "risk_trace_inv s0"
  shows "risk_trace_inv s"
  using assms(1)
proof (induction ks arbitrary: s rule: rev_induct)
  case Nil
  with assms(2) show ?case by simp
next
  case (snoc k ks)
  from snoc.prems obtain s1 where s1: "foldl then_landw (Returned s0) ks = Returned s1"
    and k: "landw s1 k = Returned s"
    by (auto dest: then_landw_Returned)
  from s1 have "risk_trace_inv s1" by (rule snoc.IH)
  with k show ?case unfolding landw_def by (rule landw_loop_tracked)
qed

lemma calls_state:
  "foldl then_landw (Returned s0) ks = Returned s \<Longrightarrow> s = run_calls s0 ks"
proof (induction ks arbitrary: s rule: rev_induct)
  case Nil
  then show ?case by (simp add: run_calls_def)
next
  case (snoc k ks)
  from snoc.prems obtain s1 where s1: "foldl then_landw (Returned s0) ks = Returned s1"
    and k: "landw s1 k = Returned s"
    by (auto dest: then_landw_Returned)
  from snoc.IH [OF s1] k show ?case by (simp add: run_calls_def)
qed

text \<open>
  C4, as the claim states it, fails: the constructor starts \<open>mse\<close> as an empty
  array while \<open>residuals\<close> starts with one entry, and each iteration appends one entry
  to both.  After two iterations of the example the risk trace has two entries and the
  residual trace three.
\<close>

theorem mse_length_counterexample:
  "init demo_matrix [1, 2] (Some [2, 8]) = Inr demo_engine
   \<and> map_option length (mse (run_calls demo_engine [2])) = Some 2
   \<and> length (residuals (run_calls demo_engine [2])) = 3"
  by (simp add: model_defs power2_eq_square eval_nat_numeral upt_rec)

text \<open>
  C4, amended.  For an instance constructed with a true signal, after any sequence of
  \<open>landw\<close> calls that all return, the risk trace \<open>mse\<close> has as many entries as
  iterations were made, one fewer than the residual trace.
\<close>

theorem mse_length_amended:
  assumes "init A y (Some t) = Inr s0"
    and "foldl then_landw (Returned s0) ks = Returned s"
  shows "map_option length (mse s) = Some (nat (iter s))
       \<and> int (length (residuals s)) = iter s + 1"
proof -
  from init_fields [OF assms(1)]
  have "risk_trace_inv s0" by (simp add: risk_trace_inv_def)
  with assms(2) have "risk_trace_inv s" by (rule calls_tracked)
  then have "map_option length (mse s) = Some (nat (iter s))"
    by (simp add: risk_trace_inv_def)
  moreover have "int (length (residuals s)) = iter s + 1"
    using run_calls_trace [OF assms(1), of ks] calls_state [OF assms(2)] by simp
  ultimately show ?thesis by simp
qed

theorem mse_length_amended_witness:
  "init demo_matrix [1, 2] (Some [2, 8]) = Inr demo_engine
   \<and> foldl then_landw (Returned demo_engine) [1] = landw demo_engine 1
   \<and> map_option length (mse (state_of (landw demo_engine 1))) = Some 1
   \<and> length (residuals (state_of (landw demo_engine 1))) = 2"
  using mse_length_amended [of demo_matrix "[1, 2]" "[2, 8]" demo_engine "[1]"
      "state_of (landw demo_engine 1)"]
  by (simp add: demo_step1 demo_init)

section \<open>The gradient update\<close>

lemma vdot_sum:
  assumes "length r = n" and "length x = n"
  shows "vdot r x = (\<Sum>k<n. r ! k * x ! k)"
proof -
  have "sum_list (map2 (*) r x) = (\<Sum>k = 0..<length (map2 (*) r x). map2 (*) r x ! k)"
    by (rule sum_list_sum_nth)
  also have "\<dots> = (\<Sum>k = 0..<n. r ! k * x ! k)"
    using assms by (intro sum.cong) simp_all
  finally show ?thesis by (simp add: vdot_def atLeast0LessThan)
qed

lemma wf_row_length:
  "wf_ndarray2 A \<Longrightarrow> i < shape0 A \<Longrightarrow> length (rows A ! i) = shape1 A"
  by (simp add: wf_ndarray2_def list_all_length)

lemma np_dot_sum:
  assumes "wf_ndarray2 A" and "length x = shape1 A"
  shows "np_dot A x = Inr (map (\<lambda>i. \<Sum>k<shape1 A. rows A ! i ! k * x ! k) [0..<shape0 A])"
proof -
  from assms(1) have len: "length (rows A) = shape0 A" by (simp add: wf_ndarray2_def)
  have "map (\<lambda>r. vdot r x) (rows A) = map (\<lambda>i. vdot (rows A ! i) x) [0..<length (rows A)]"
    by (rule nth_equalityI) simp_all
  also have "\<dots> = map (\<lambda>i. \<Sum>k<shape1 A. rows A ! i ! k * x ! k) [0..<shape0 A]"
    using assms len by (auto simp: vdot_sum wf_row_length)
  finally show ?thesis using assms(2) by (simp add: np_dot_def)
qed

lemma np_dot_transpose_sum:
  assumes "wf_ndarray2 A" and "length r = shape0 A"
  shows "np_dot (np_transpose A) r =
           Inr (map (\<lambda>j. \<Sum>i<shape0 A. rows A ! i ! j * r ! i) [0..<shape1 A])"
proof -
  from assms(1) have len: "length (rows A) = shape0 A" by (simp add: wf_ndarray2_def)
  have "vdot (map (\<lambda>row. row ! j) (rows A)) r = (\<Sum>i<shape0 A. rows A ! i ! j * r ! i)" for j
  proof -
    have "vdot (map (\<lambda>row. row ! j) (rows A)) r
            = (\<Sum>i<shape0 A. map (\<lambda>row. row ! j) (rows A) ! i * r ! i)"
      using len assms(2) by (intro vdot_sum) simp_all
    also have "\<dots> = (\<Sum>i<shape0 A. rows A ! i ! j * r ! i)"
      using len by (intro sum.cong) simp_all
    finally show ?thesis .
  qed
  then show ?thesis using assms(2) by (simp add: np_dot_def np_transpose_def)
qed

lemma np_sub_same_length:
  "length a = length b \<Longrightarrow> np_sub a b = Inr (map (\<lambda>i. a ! i - b ! i) [0..<length a])"
  by (auto simp: np_sub_def np_broadcast_def intro!: nth_equalityI)

lemma np_add_same_length:
  "length a = length b \<Longrightarrow> np_add a b = Inr (map (\<lambda>i. a ! i + b ! i) [0..<length a])"
  by (auto simp: np_add_def np_broadcast_def intro!: nth_equalityI)

lemma landw_residual_sum:
  assumes "wf_ndarray2 A" and "length y = shape0 A" and "length x = shape1 A"
  shows "landw_residual A y x =
           Inr (map (\<lambda>i. y ! i - (\<Sum>k<shape1 A. rows A ! i ! k * x ! k)) [0..<shape0 A])"
  using assms by (simp add: landw_residual_def np_dot_sum np_sub_same_length)

lemma residual_squared_norm:
  assumes "landw_residual A y x = Inr r" and "wf_ndarray2 A"
    and "length y = shape0 A" and "length x = shape1 A"
  shows "np_sum (np_square r) = sq_residual A y x"
proof -
  from assms have "r = map (\<lambda>i. y ! i - (\<Sum>k<shape1 A. rows A ! i ! k * x ! k)) [0..<shape0 A]"
    by (simp add: landw_residual_sum)
  then show ?thesis
    by (simp add: np_sum_def np_square_def sq_residual_def comp_def
        interv_sum_list_conv_sum_set_nat atLeast0LessThan)
qed

lemma landw_update_spec:
  assumes "wf_ndarray2 A" and "length y = shape0 A" and "length x = shape1 A"
  shows "landw_update A y x = Inr (spec_landweber_step A y x)"
  using assms
  by (simp add: landw_update_def np_dot_sum np_sub_same_length np_dot_transpose_sum
      np_add_same_length spec_landweber_step_def)

lemma landw_one: "landw s 1 = landw_one_iteration s"
  by (cases "landw_one_iteration s") (simp_all add: landw_def)

lemma landw_one_iteration_estimate:
  assumes "landw_update (input_matrix s) (output_variable s) (landw_estimate s) = Inr est"
    and "landw_residual (input_matrix s) (output_variable s) est = Inr r"
  shows "landw_estimate (state_of (landw_one_iteration s)) = est
       \<and> iter (state_of (landw_one_iteration s)) = iter s + 1"
proof (cases s rule: landw_one_iteration_cases)
  case (update_raises e)
  with assms show ?thesis by simp
next
  case (residual_raises e est')
  with assms show ?thesis by simp
next
  case (plain est' r')
  with assms show ?thesis by simp
next
  case (tracked est' r')
  let ?s4 = "s\<lparr>landw_estimate := est', residual_vector := r',
                residuals := residuals s @ [np_sum (np_square r')], iter := iter s + 1\<rparr>"
  show ?thesis
  proof (cases ?s4 rule: update_strong_error_cases)
    case (raises e)
    with tracked assms show ?thesis by simp
  next
    case (returns t d m)
    with tracked assms show ?thesis by simp
  qed
qed

text \<open>
  C1.  For an instance built by the constructor from a well-formed \<open>n \<times> p\<close> matrix \<open>A\<close>
  and an observation \<open>y\<close> of length \<open>n\<close>, in any state reached by \<open>landw\<close> calls: the
  attributes \<open>input_matrix\<close> and \<open>output_variable\<close> are still \<open>A\<close> and \<open>y\<close>, the call
  \<open>landw(1)\<close> is one private iteration, and that iteration replaces the estimate \<open>x\<close> by
  \<open>x + A\<^sup>T (y - A x)\<close> and counts one iteration.
\<close>

theorem landweber_gradient_step:
  assumes "init A y ts = Inr s0" and "wf_ndarray2 A" and "length y = shape0 A"
    and "s = run_calls s0 ks"
  shows "input_matrix s = A \<and> output_variable s = y
       \<and> landw s 1 = landw_one_iteration s
       \<and> landw_estimate (state_of (landw_one_iteration s))
           = spec_landweber_step A y (landw_estimate s)
       \<and> iter (state_of (landw_one_iteration s)) = iter s + 1"
proof -
  from run_calls_bound [OF assms(1), of ks] assms(4)
  have A: "input_matrix s = A" and y: "output_variable s = y"
    and len: "length (landw_estimate s) = shape1 A" by simp_all
  let ?est = "spec_landweber_step A y (landw_estimate s)"
  have upd: "landw_update A y (landw_estimate s) = Inr ?est"
    using assms(2,3) len by (rule landw_update_spec)
  have "length ?est = shape1 A" by (simp add: spec_landweber_step_def)
  with assms(2,3) have "\<exists>r. landw_residual A y ?est = Inr r"
    by (simp add: landw_residual_sum)
  then obtain r where "landw_residual A y ?est = Inr r" ..
  with upd A y show ?thesis
    using landw_one_iteration_estimate [of s ?est r] by (simp add: landw_one)
qed

lemma demo_wf: "wf_ndarray2 demo_matrix"
  by (simp add: wf_ndarray2_def demo_matrix_def)

theorem landweber_gradient_step_witness:
  "init demo_matrix [1, 2] (Some [2, 8]) = Inr demo_engine
   \<and> wf_ndarray2 demo_matrix \<and> length [1, 2 :: real] = shape0 demo_matrix
   \<and> landw_estimate (run_calls demo_engine [1, -2, 1]) = [7/8, 31/32]
   \<and> landw_estimate (state_of (landw_one_iteration (run_calls demo_engine [1, -2, 1])))
       = [37/32, 721/512]
   \<and> spec_landweber_step demo_matrix [1, 2] [7/8, 31/32] = [37/32, 721/512]"
proof -
  have "length [1, 2 :: real] = shape0 demo_matrix" by (simp add: demo_matrix_def)
  from landweber_gradient_step [OF demo_init demo_wf this refl, of "[1, -2, 1]"]
  show ?thesis
    by (simp add: demo_init demo_wf demo_run demo_step3 [unfolded demo_run])
       (simp add: demo_matrix_def)
qed

section \<open>The strong error\<close>

lemma np_mean_squares:
  assumes "length t = p" and "length e = p" and "0 < p"
  shows "np_sub t e = Inr (map (\<lambda>i. t ! i - e ! i) [0..<p])
       \<and> np_mean (np_square (map (\<lambda>i. t ! i - e ! i) [0..<p]))
           = Num ((\<Sum>j<p. (t ! j - e ! j) ^ 2) / real p)"
proof -
  have "sum_list (map (\<lambda>x. x ^ 2) (map (\<lambda>i. t ! i - e ! i) [0..<p]))
          = (\<Sum>j<p. (t ! j - e ! j) ^ 2)"
    by (simp add: comp_def interv_sum_list_conv_sum_set_nat atLeast0LessThan)
  with assms show ?thesis
    by (simp add: np_sub_same_length np_mean_def np_square_def)
qed

text \<open>
  C9.  For an instance constructed with a true signal \<open>t\<close> of length \<open>p > 0\<close>, an
  iteration that returns appends to \<open>mse\<close> the mean over the \<open>p\<close> coordinates of the
  squared deviation between \<open>t\<close> and the new estimate: \<open>(\<Sum>\<^sub>j (t\<^sub>j - x\<^sub>j)\<^sup>2) / p\<close>, a mean and
  not the squared norm.
\<close>

theorem strong_error_is_mean:
  assumes "init A y (Some t) = Inr s0" and "s = run_calls s0 ks"
    and "landw_one_iteration s = Returned s'"
    and "length t = shape1 A" and "0 < shape1 A"
  shows "mse s \<noteq> None
       \<and> mse s' = map_option
           (\<lambda>m. m @ [Num ((\<Sum>j<shape1 A. (t ! j - landw_estimate s' ! j) ^ 2) / real (shape1 A))])
           (mse s)"
proof -
  from run_calls_bound [OF assms(1), of ks] assms(2)
  have A: "input_matrix s = A" and ts: "true_signal s = Some t"
    and len: "length (landw_estimate s) = shape1 A" and m: "mse s \<noteq> None" by simp_all
  show ?thesis
  proof (cases s rule: landw_one_iteration_cases)
    case (update_raises e)
    with assms(3) show ?thesis by simp
  next
    case (residual_raises e est)
    with assms(3) show ?thesis by simp
  next
    case (plain est r)
    with ts show ?thesis by simp
  next
    case (tracked est r)
    let ?s4 = "s\<lparr>landw_estimate := est, residual_vector := r,
                  residuals := residuals s @ [np_sum (np_square r)], iter := iter s + 1\<rparr>"
    from tracked(1) len A have est: "length est = shape1 A"
      by (auto dest: landw_update_length)
    show ?thesis
    proof (cases ?s4 rule: update_strong_error_cases)
      case (raises e)
      with tracked assms(3) show ?thesis by simp
    next
      case (returns t' d m')
      with ts have "t' = t" by simp
      with returns(2) np_mean_squares [OF assms(4) est assms(5)]
      have "np_mean (np_square d)
              = Num ((\<Sum>j<shape1 A. (t ! j - est ! j) ^ 2) / real (shape1 A))"
        by simp
      with returns tracked assms(3) m show ?thesis by auto
    qed
  qed
qed

theorem strong_error_is_mean_witness:
  "init demo_matrix [1, 2] (Some [2, 8]) = Inr demo_engine
   \<and> landw_one_iteration (run_calls demo_engine [1, -2, 1]) =
       Returned (state_of (landw_one_iteration (run_calls demo_engine [1, -2, 1])))
   \<and> length [2, 8 :: real] = shape1 demo_matrix \<and> 0 < shape1 demo_matrix
   \<and> mse (run_calls demo_engine [1, -2, 1]) = Some [Num (117/4), Num (51921/2048)]
   \<and> mse (state_of (landw_one_iteration (run_calls demo_engine [1, -2, 1])))
       = Some [Num (117/4), Num (51921/2048), Num (((2 - 37/32)^2 + (8 - 721/512)^2) / 2)]"
proof -
  have a: "landw_one_iteration (run_calls demo_engine [1, -2, 1]) =
       Returned (state_of (landw_one_iteration (run_calls demo_engine [1, -2, 1])))"
    by (simp add: demo_step3)
  have b: "length [2, 8 :: real] = shape1 demo_matrix" and c: "0 < shape1 demo_matrix"
    by (simp_all add: demo_matrix_def)
  have d: "mse (run_calls demo_engine [1, -2, 1]) = Some [Num (117/4), Num (51921/2048)]"
    by (simp add: demo_run)
  have e: "landw_estimate (state_of (landw_one_iteration (run_calls demo_engine [1, -2, 1])))
             = [37/32, 721/512]"
    by (simp add: demo_step3)
  have f: "shape1 demo_matrix = Suc (Suc 0)" by (simp add: demo_matrix_def)
  from strong_error_is_mean [OF demo_init refl a b c]
  have "mse (state_of (landw_one_iteration (run_calls demo_engine [1, -2, 1])))
       = Some [Num (117/4), Num (51921/2048), Num (((2 - 37/32)^2 + (8 - 721/512)^2) / 2)]"
    unfolding d e f by (simp add: lessThan_Suc)
  with demo_init a b c d show ?thesis by blast
qed

section \<open>Shape mismatches\<close>

lemma np_dot_rows_length:
  "wf_ndarray2 A \<Longrightarrow> np_dot A x = Inr v \<Longrightarrow> length v = shape0 A"
  by (auto simp: np_dot_def wf_ndarray2_def split: if_splits)

lemma landw_update_row_mismatch:
  assumes "wf_ndarray2 A" and "length x = shape1 A"
    and "length y \<noteq> shape0 A" and "length y \<noteq> 1"
  shows "landw_update A y x = Inl ValueError"
proof -
  from assms(2) obtain Ax where Ax: "np_dot A x = Inr Ax" by (simp add: np_dot_def)
  with assms(1) have len: "length Ax = shape0 A" by (rule np_dot_rows_length)
  show ?thesis
  proof (cases "np_sub y Ax")
    case (Inl e)
    then have "e = ValueError" by (simp add: np_sub_def np_broadcast_error)
    with Inl Ax show ?thesis by (simp add: landw_update_def)
  next
    case (Inr r)
    with len assms(3,4) have "length r = length y"
      by (auto simp: np_sub_def np_broadcast_def split: if_splits)
    with assms(3) have "np_dot (np_transpose A) r = Inl ValueError"
      by (simp add: np_dot_def np_transpose_def)
    with Inr Ax show ?thesis by (simp add: landw_update_def)
  qed
qed

lemma landw_loop_first_raises:
  "landw_one_iteration s = Raised e s' \<Longrightarrow> 0 < n \<Longrightarrow> landw_loop n s = Raised e s'"
  by (cases n) simp_all

text \<open>
  C8, as the claim states it, fails: the constructor checks no shape.  With a
  \<open>2 \<times> 2\<close> matrix and an observation of length 3 the construction returns an
  instance, and the mismatch is reported only by the first iteration.
\<close>

theorem shape_mismatch_counterexample:
  "length [1, 2, 3 :: real] \<noteq> shape0 demo_matrix
   \<and> init demo_matrix [1, 2, 3] None = Inr mismatched_engine
   \<and> landw mismatched_engine 1 = Raised ValueError mismatched_engine"
  by (simp add: mismatched_engine_def model_defs)

text \<open>
  C8, amended.  Construction from a two-dimensional \<open>input_matrix\<close> validates no shape
  and returns an instance.  For a well-formed \<open>n \<times> p\<close> matrix, an observation whose
  length is neither \<open>n\<close> nor one makes every later call \<open>landw(k)\<close>, \<open>k > 0\<close>, raise
  \<^verbatim>\<open>ValueError\<close> in its first iteration with the instance unchanged.  A true signal
  whose length is neither \<open>p\<close> nor one (with \<open>p \<noteq> 1\<close> and an observation of length \<open>n\<close>)
  makes that call raise \<^verbatim>\<open>ValueError\<close> in the first iteration's error update, after
  the iteration has done its work: the counter is one, the estimate is the first
  Landweber iterate \<open>A\<^sup>T y\<close> (the update rule applied to the zero vector), the residual
  trace holds the initial entry and the squared residual norm of that estimate, and
  the risk trace is still empty.
\<close>

theorem shape_mismatch_deferred:
  "\<exists>s0. init A y ts = Inr s0
     \<and> (wf_ndarray2 A \<and> length y \<noteq> shape0 A \<and> length y \<noteq> 1 \<and> 0 < k
          \<longrightarrow> landw s0 k = Raised ValueError s0)
     \<and> (wf_ndarray2 A \<and> length y = shape0 A \<and> ts = Some t \<and> length t \<noteq> shape1 A
          \<and> length t \<noteq> 1 \<and> shape1 A \<noteq> 1 \<and> 0 < k
          \<longrightarrow> (\<exists>s1. landw s0 k = Raised ValueError s1 \<and> iter s1 = 1
                  \<and> landw_estimate s1 = spec_landweber_step A y (replicate (shape1 A) 0)
                  \<and> residuals s1 = [sum_list (map (\<lambda>v. v ^ 2) y),
                       sq_residual A y (spec_landweber_step A y (replicate (shape1 A) 0))]
                  \<and> mse s1 = Some []))"
proof -
  obtain s0 where s0: "init A y ts = Inr s0" by (simp add: init_def)
  note f = init_fields [OF s0]
  have est0: "length (landw_estimate s0) = shape1 A" using f by simp
  have rows: "landw s0 k = Raised ValueError s0"
    if "wf_ndarray2 A" "length y \<noteq> shape0 A" "length y \<noteq> 1" "0 < k"
  proof -
    from that est0 have "landw_update A y (landw_estimate s0) = Inl ValueError"
      by (intro landw_update_row_mismatch)
    then have "landw_one_iteration s0 = Raised ValueError s0"
      using f by (simp add: landw_one_iteration_def)
    with that(4) show ?thesis by (simp add: landw_def landw_loop_first_raises)
  qed
  have sig: "\<exists>s1. landw s0 k = Raised ValueError s1 \<and> iter s1 = 1
                  \<and> landw_estimate s1 = spec_landweber_step A y (replicate (shape1 A) 0)
                  \<and> residuals s1 = [sum_list (map (\<lambda>v. v ^ 2) y),
                       sq_residual A y (spec_landweber_step A y (replicate (shape1 A) 0))]
                  \<and> mse s1 = Some []"
    if "wf_ndarray2 A" "length y = shape0 A" "ts = Some t" "length t \<noteq> shape1 A"
       "length t \<noteq> 1" "shape1 A \<noteq> 1" "0 < k"
  proof -
    let ?est = "spec_landweber_step A y (landw_estimate s0)"
    have upd: "landw_update A y (landw_estimate s0) = Inr ?est"
      using that(1,2) est0 by (rule landw_update_spec)
    have len: "length ?est = shape1 A" by (simp add: spec_landweber_step_def)
    with that(1,2) obtain r where r: "landw_residual A y ?est = Inr r"
      by (simp add: landw_residual_sum)
    have new: "np_sum (np_square r) = sq_residual A y ?est"
      using r that(1,2) len by (rule residual_squared_norm)
    from len that(4,5,6) have "np_sub t ?est = Inl ValueError"
      by (simp add: np_sub_def np_broadcast_def)
    with upd r that(3) f
    have "landw_one_iteration s0 =
            Raised ValueError (s0\<lparr>landw_estimate := ?est, residual_vector := r,
               residuals := residuals s0 @ [np_sum (np_square r)], iter := iter s0 + 1\<rparr>)"
      by (simp add: landw_one_iteration_def update_strong_error_def Let_def np_append_def)
    with that(7) have "landw s0 k =
            Raised ValueError (s0\<lparr>landw_estimate := ?est, residual_vector := r,
               residuals := residuals s0 @ [np_sum (np_square r)], iter := iter s0 + 1\<rparr>)"
      by (simp add: landw_def landw_loop_first_raises)
    with f that(3) new show ?thesis by simp
  qed
  from s0 rows sig show ?thesis by blast
qed

lemma demo_first_estimate: "spec_landweber_step demo_matrix [1, 2] (replicate 2 0) = [1/2, 1/2]"
proof -
  have two: "{..<2::nat} = {0, 1}" by auto
  have r: "replicate 2 (0 :: real) = [0, 0]" by (simp add: numeral_2_eq_2)
  have u: "[0..<2] = [0, 1]" by (simp add: upt_rec)
  show ?thesis
    unfolding spec_landweber_step_def demo_matrix_def r by (simp add: two u)
qed

lemma demo_first_residual: "sq_residual demo_matrix [1, 2] [1/2, 1/2] = 261/64"
proof -
  have two: "{..<2::nat} = {0, 1}" by auto
  show ?thesis
    unfolding sq_residual_def demo_matrix_def by (simp add: two power2_eq_square)
qed

theorem shape_mismatch_deferred_witness:
  "wf_ndarray2 demo_matrix
   \<and> length [1, 2, 3 :: real] \<noteq> shape0 demo_matrix \<and> length [1, 2, 3 :: real] \<noteq> 1
   \<and> (0 :: int) < 1
   \<and> init demo_matrix [1, 2, 3] None = Inr mismatched_engine
   \<and> landw mismatched_engine 1 = Raised ValueError mismatched_engine
   \<and> length [1, 2 :: real] = shape0 demo_matrix
   \<and> length [2, 8, 9 :: real] \<noteq> shape1 demo_matrix \<and> length [2, 8, 9 :: real] \<noteq> 1
   \<and> shape1 demo_matrix \<noteq> 1
   \<and> init demo_matrix [1, 2] (Some [2, 8, 9]) = Inr mistracked_engine
   \<and> (\<exists>s1. landw mistracked_engine 1 = Raised ValueError s1 \<and> iter s1 = 1
          \<and> landw_estimate s1 = [1/2, 1/2] \<and> residuals s1 = [5, 261/64]
          \<and> mse s1 = Some [])"
proof -
  have i1: "init demo_matrix [1, 2, 3] None = Inr mismatched_engine"
    by (simp add: mismatched_engine_def init_def)
  have i2: "init demo_matrix [1, 2] (Some [2, 8, 9]) = Inr mistracked_engine"
    by (simp add: mistracked_engine_def init_def)
  have shapes: "shape0 demo_matrix = 2" "shape1 demo_matrix = 2"
    by (simp_all add: demo_matrix_def)
  from shape_mismatch_deferred [of demo_matrix "[1, 2, 3]" None 1 "[]"]
  have a: "landw mismatched_engine 1 = Raised ValueError mismatched_engine"
    by (simp add: i1 demo_wf shapes)
  from shape_mismatch_deferred [of demo_matrix "[1, 2]" "Some [2, 8, 9]" 1 "[2, 8, 9]"]
  have b: "\<exists>s1. landw mistracked_engine 1 = Raised ValueError s1 \<and> iter s1 = 1
          \<and> landw_estimate s1 = [1/2, 1/2] \<and> residuals s1 = [5, 261/64]
          \<and> mse s1 = Some []"
    by (simp add: i2 demo_wf shapes demo_first_estimate demo_first_residual
        power2_eq_square)
  from a b i1 i2 show ?thesis by (simp add: demo_wf shapes)
qed

section \<open>The contraction argument\<close>

lemma sum_power2_diff:
  fixes f g :: "nat \<Rightarrow> real"
  shows "(\<Sum>i\<in>S. (f i - g i) ^ 2)
           = (\<Sum>i\<in>S. (f i) ^ 2) - 2 * (\<Sum>i\<in>S. f i * g i) + (\<Sum>i\<in>S. (g i) ^ 2)"
  by (simp add: power2_diff sum.distrib sum_subtractf sum_distrib_left mult.assoc)

lemma cauchy_schwarz_sum:
  fixes f g :: "nat \<Rightarrow> real"
  shows "(\<Sum>i\<in>S. f i * g i) ^ 2 \<le> (\<Sum>i\<in>S. (f i) ^ 2) * (\<Sum>i\<in>S. (g i) ^ 2)"
proof -
  define X where "X = (\<Sum>i\<in>S. (f i) ^ 2)"
  define Y where "Y = (\<Sum>i\<in>S. (g i) ^ 2)"
  define P where "P = (\<Sum>i\<in>S. f i * g i)"
  have Y0: "0 \<le> Y" unfolding Y_def by (intro sum_nonneg) simp
  have "0 \<le> (\<Sum>i\<in>S. (Y * f i - P * g i) ^ 2)" by (intro sum_nonneg) simp
  also have "\<dots> = (\<Sum>i\<in>S. (Y * f i) ^ 2) - 2 * (\<Sum>i\<in>S. (Y * f i) * (P * g i))
                      + (\<Sum>i\<in>S. (P * g i) ^ 2)"
    by (rule sum_power2_diff)
  also have "(\<Sum>i\<in>S. (Y * f i) ^ 2) = Y ^ 2 * X"
    by (simp add: X_def power_mult_distrib sum_distrib_left)
  also have "(\<Sum>i\<in>S. (Y * f i) * (P * g i)) = Y * P * P"
    by (simp add: P_def sum_distrib_left mult_ac)
  also have "(\<Sum>i\<in>S. (P * g i) ^ 2) = P ^ 2 * Y"
    by (simp add: Y_def power_mult_distrib sum_distrib_left)
  finally have "0 \<le> Y * (X * Y - P ^ 2)"
    by (simp add: algebra_simps power2_eq_square)
  then have "P ^ 2 \<le> X * Y"
  proof (cases "Y = 0")
    case True
    show ?thesis
    proof (cases "finite S")
      case fin: True
      from True have "\<forall>i\<in>S. (g i) ^ 2 = 0"
        unfolding Y_def using fin by (simp add: sum_nonneg_eq_0_iff)
      then have "P = 0" unfolding P_def by simp
      with True show ?thesis by simp
    next
      case False
      then show ?thesis by (simp add: P_def X_def Y_def)
    qed
  next
    case False
    with Y0 have "0 < Y" by simp
    with \<open>0 \<le> Y * (X * Y - P ^ 2)\<close> have "0 \<le> X * Y - P ^ 2"
      by (simp add: zero_le_mult_iff)
    then show ?thesis by simp
  qed
  then show ?thesis by (simp add: X_def Y_def P_def)
qed

lemma adjoint_sum:
  fixes a :: "nat \<Rightarrow> nat \<Rightarrow> real"
  shows "(\<Sum>i<n. (\<Sum>k<p. a i k * v k) * u i) = (\<Sum>k<p. v k * (\<Sum>i<n. a i k * u i))"
proof -
  have "(\<Sum>i<n. (\<Sum>k<p. a i k * v k) * u i) = (\<Sum>i<n. \<Sum>k<p. v k * (a i k * u i))"
    by (simp add: sum_distrib_right sum_distrib_left mult_ac)
  also have "\<dots> = (\<Sum>k<p. \<Sum>i<n. v k * (a i k * u i))" by (rule sum.swap)
  finally show ?thesis by (simp add: sum_distrib_left)
qed

lemma contraction_core:
  fixes a :: "nat \<Rightarrow> nat \<Rightarrow> real"
  assumes H: "\<And>v. (\<Sum>j<p. (v j - (\<Sum>i<n. a i j * (\<Sum>k<p. a i k * v k))) ^ 2)
                    \<le> (\<Sum>j<p. (v j) ^ 2)"
  shows "(\<Sum>i<n. (r i - (\<Sum>k<p. a i k * (\<Sum>i'<n. a i' k * r i'))) ^ 2) \<le> (\<Sum>i<n. (r i) ^ 2)"
proof -
  define Av where "Av v i = (\<Sum>k<p. a i k * v k)" for v i
  define At where "At u k = (\<Sum>i<n. a i k * u i)" for u k
  have adj: "(\<Sum>i<n. Av v i * u i) = (\<Sum>k<p. v k * At u k)" for v u
    unfolding Av_def At_def by (rule adjoint_sum)
  have H': "(\<Sum>j<p. (At (Av v) j) ^ 2) \<le> 2 * (\<Sum>i<n. (Av v i) ^ 2)" for v
  proof -
    have "(\<Sum>j<p. (v j - At (Av v) j) ^ 2) \<le> (\<Sum>j<p. (v j) ^ 2)"
      using H [of v] by (simp add: Av_def At_def)
    moreover have "(\<Sum>j<p. v j * At (Av v) j) = (\<Sum>i<n. (Av v i) ^ 2)"
      using adj [of v "Av v"] by (simp add: power2_eq_square)
    ultimately show ?thesis by (simp add: sum_power2_diff)
  qed
  have K: "(\<Sum>i<n. (Av w i) ^ 2) \<le> 2 * (\<Sum>j<p. (w j) ^ 2)" for w
  proof -
    define N where "N = (\<Sum>i<n. (Av w i) ^ 2)"
    define W where "W = (\<Sum>j<p. (w j) ^ 2)"
    have N0: "0 \<le> N" unfolding N_def by (intro sum_nonneg) simp
    have W0: "0 \<le> W" unfolding W_def by (intro sum_nonneg) simp
    have "N = (\<Sum>j<p. w j * At (Av w) j)"
      using adj [of w "Av w"] by (simp add: N_def power2_eq_square)
    then have "N ^ 2 \<le> W * (\<Sum>j<p. (At (Av w) j) ^ 2)"
      unfolding W_def using cauchy_schwarz_sum [of w "At (Av w)" "{..<p}"] by simp
    also have "\<dots> \<le> W * (2 * N)"
      using H' [of w] W0 unfolding N_def by (intro mult_left_mono) simp_all
    finally have le: "N * N \<le> (2 * W) * N" by (simp add: power2_eq_square mult_ac)
    have "N \<le> 2 * W"
    proof (cases "N = 0")
      case True
      with W0 show ?thesis by simp
    next
      case False
      with N0 have "0 < N" by simp
      with le show ?thesis by simp
    qed
    then show ?thesis by (simp add: N_def W_def)
  qed
  define w where "w = At r"
  have "(\<Sum>i<n. r i * Av w i) = (\<Sum>j<p. (w j) ^ 2)"
    using adj [of w r] by (simp add: w_def power2_eq_square mult.commute)
  then have "(\<Sum>i<n. (r i - Av w i) ^ 2)
               = (\<Sum>i<n. (r i) ^ 2) - 2 * (\<Sum>j<p. (w j) ^ 2) + (\<Sum>i<n. (Av w i) ^ 2)"
    by (simp add: sum_power2_diff)
  with K [of w] have "(\<Sum>i<n. (r i - Av w i) ^ 2) \<le> (\<Sum>i<n. (r i) ^ 2)" by simp
  then show ?thesis by (simp add: Av_def w_def At_def)
qed

lemma spec_step_decreases:
  assumes "contractive A"
  shows "sq_residual A y (spec_landweber_step A y x) \<le> sq_residual A y x"
proof -
  define n where "n = shape0 A"
  define p where "p = shape1 A"
  define a where "a i k = rows A ! i ! k" for i k
  define r where "r i = y ! i - (\<Sum>k<p. a i k * x ! k)" for i
  have H: "(\<Sum>j<p. (v j - (\<Sum>i<n. a i j * (\<Sum>k<p. a i k * v k))) ^ 2) \<le> (\<Sum>j<p. (v j) ^ 2)"
    for v :: "nat \<Rightarrow> real"
  proof -
    have "length (map v [0..<p]) = shape1 A" by (simp add: p_def)
    with assms have
      "(\<Sum>j<p. (map v [0..<p] ! j - (\<Sum>i<n. a i j * (\<Sum>k<p. a i k * map v [0..<p] ! k))) ^ 2)
         \<le> (\<Sum>j<p. (map v [0..<p] ! j) ^ 2)"
      unfolding contractive_def n_def p_def a_def by blast
    then show ?thesis by simp
  qed
  have "y ! i - (\<Sum>k<p. a i k * spec_landweber_step A y x ! k)
          = r i - (\<Sum>k<p. a i k * (\<Sum>i'<n. a i' k * r i'))" for i
  proof -
    have "(\<Sum>k<p. a i k * spec_landweber_step A y x ! k)
            = (\<Sum>k<p. a i k * (x ! k + (\<Sum>i'<n. a i' k * r i')))"
      by (intro sum.cong refl) (simp add: spec_landweber_step_def p_def n_def a_def r_def)
    then show ?thesis
      by (simp add: r_def distrib_left sum.distrib)
  qed
  then have "sq_residual A y (spec_landweber_step A y x)
               = (\<Sum>i<n. (r i - (\<Sum>k<p. a i k * (\<Sum>i'<n. a i' k * r i'))) ^ 2)"
    by (simp add: sq_residual_def n_def p_def a_def)
  also have "\<dots> \<le> (\<Sum>i<n. (r i) ^ 2)" using H by (rule contraction_core)
  also have "\<dots> = sq_residual A y x"
    by (simp add: sq_residual_def n_def p_def a_def r_def)
  finally show ?thesis .
qed

lemma monotone_inv_init:
  assumes "init A y ts = Inr s0" and "length y = shape0 A"
  shows "monotone_inv A y s0"
proof -
  have "sum_list (map (\<lambda>v. v ^ 2) y) = (\<Sum>i<shape0 A. (y ! i) ^ 2)"
  proof -
    have "map (\<lambda>v. v ^ 2) y = map (\<lambda>i. (y ! i) ^ 2) [0..<shape0 A]"
      using assms(2) by (intro nth_equalityI) simp_all
    then show ?thesis
      by (simp add: interv_sum_list_conv_sum_set_nat atLeast0LessThan)
  qed
  then show ?thesis
    using init_fields [OF assms(1)] by (simp add: monotone_inv_def sq_residual_def)
qed

lemma monotone_inv_mse: "monotone_inv A y s \<Longrightarrow> monotone_inv A y (s\<lparr>mse := x\<rparr>)"
  by (simp add: monotone_inv_def)

lemma monotone_inv_step:
  assumes "monotone_inv A y s" and "wf_ndarray2 A" and "length y = shape0 A"
    and "contractive A"
  shows "monotone_inv A y (state_of (landw_one_iteration s))"
proof -
  from assms(1) have A: "input_matrix s = A" and y: "output_variable s = y"
    and len: "length (landw_estimate s) = shape1 A"
    and ne: "residuals s \<noteq> []"
    and last: "last (residuals s) = sq_residual A y (landw_estimate s)"
    and mono: "\<And>m. m + 1 < length (residuals s) \<Longrightarrow> residuals s ! (m + 1) \<le> residuals s ! m"
    by (simp_all add: monotone_inv_def)
  let ?est = "spec_landweber_step A y (landw_estimate s)"
  have upd: "landw_update A y (landw_estimate s) = Inr ?est"
    using assms(2,3) len by (rule landw_update_spec)
  have len': "length ?est = shape1 A" by (simp add: spec_landweber_step_def)
  with assms(2,3) obtain r where r: "landw_residual A y ?est = Inr r"
    by (simp add: landw_residual_sum)
  have new: "np_sum (np_square r) = sq_residual A y ?est"
    using r assms(2,3) len' by (rule residual_squared_norm)
  have le: "np_sum (np_square r) \<le> last (residuals s)"
    unfolding new last using assms(4) by (rule spec_step_decreases)
  have app: "(residuals s @ [v]) ! (m + 1) \<le> (residuals s @ [v]) ! m"
    if "v \<le> last (residuals s)" and "m + 1 < length (residuals s @ [v])" for v m
  proof (cases "m + 1 < length (residuals s)")
    case True
    with mono [of m] show ?thesis by (simp add: nth_append)
  next
    case False
    with that(2) have m: "m + 1 = length (residuals s)" by simp
    then have "length (residuals s) - 1 = m" by simp
    with last_conv_nth [OF ne] have "last (residuals s) = residuals s ! m"
      by simp
    with that(1) m show ?thesis by (simp add: nth_append)
  qed
  let ?s4 = "s\<lparr>landw_estimate := ?est, residual_vector := r,
                residuals := residuals s @ [np_sum (np_square r)], iter := iter s + 1\<rparr>"
  have s4: "monotone_inv A y ?s4"
    using A y len' new app [OF le] by (simp add: monotone_inv_def)
  show ?thesis
  proof (cases s rule: landw_one_iteration_cases)
    case (update_raises e)
    with upd A y show ?thesis by simp
  next
    case (residual_raises e est)
    with upd r A y show ?thesis by simp
  next
    case (plain est r')
    with upd r A y s4 show ?thesis by simp
  next
    case (tracked est r')
    with upd r A y have eq: "landw_one_iteration s = update_strong_error ?s4" by simp
    show ?thesis
    proof (cases ?s4 rule: update_strong_error_cases)
      case (raises e)
      with eq s4 show ?thesis by simp
    next
      case (returns t d m)
      from s4 have "monotone_inv A y (?s4\<lparr>mse := Some (m @ [np_mean (np_square d)])\<rparr>)"
        by (rule monotone_inv_mse)
      with eq returns(4) show ?thesis by simp
    qed
  qed
qed

lemma demo_contractive: "contractive demo_matrix"
proof -
  have sq: "(a - a / 4) ^ 2 + (b - b / 16) ^ 2 \<le> a ^ 2 + b ^ 2" for a b :: real
  proof -
    have e: "(a - a / 4) ^ 2 = 9 / 16 * a ^ 2" "(b - b / 16) ^ 2 = 225 / 256 * b ^ 2"
      by (simp_all add: power2_eq_square field_simps)
    have "0 \<le> a ^ 2" and "0 \<le> b ^ 2" by simp_all
    then show ?thesis unfolding e by linarith
  qed
  have two: "{..<2::nat} = {0, 1}" by auto
  show ?thesis
    unfolding contractive_def demo_matrix_def
    using sq by (simp add: two)
qed

section \<open>Residuals under float64 rounding\<close>

lemma binade_aux_bounds:
  assumes "1 / 2 ^ n \<le> x" and "x < 2 * 2 ^ n"
  shows "2 powi (binade_aux n x) \<le> x \<and> x < 2 powi (binade_aux n x + 1)"
  using assms
proof (induction n arbitrary: x)
  case 0
  then show ?case by simp
next
  case (Suc n)
  show ?case
  proof (cases "2 \<le> x")
    case True
    have "1 / 2 ^ n \<le> (1 :: real)" by (simp add: field_simps)
    moreover from True have "1 \<le> x / 2" by simp
    ultimately have "1 / 2 ^ n \<le> x / 2" by (rule order_trans)
    moreover from Suc.prems(2) have "x / 2 < 2 * 2 ^ n" by simp
    ultimately have "2 powi (binade_aux n (x / 2)) \<le> x / 2
        \<and> x / 2 < 2 powi (binade_aux n (x / 2) + 1)" by (rule Suc.IH)
    with True show ?thesis by (simp add: power_int_add field_simps)
  next
    case False
    show ?thesis
    proof (cases "x < 1")
      case True
      from Suc.prems(1) have "1 / 2 ^ n \<le> 2 * x" by (simp add: field_simps)
      moreover have "(1 :: real) \<le> 2 ^ n" by simp
      with True have "2 * x < 2 * 2 ^ n" by linarith
      ultimately have "2 powi (binade_aux n (2 * x)) \<le> 2 * x
          \<and> 2 * x < 2 powi (binade_aux n (2 * x) + 1)" by (rule Suc.IH)
      with True show ?thesis by (simp add: power_int_add power_int_diff field_simps)
    next
      case False
      with \<open>\<not> 2 \<le> x\<close> show ?thesis by simp
    qed
  qed
qed

lemma real_less_two_power_floor:
  fixes z :: real
  assumes "0 < z"
  shows "z < 2 ^ nat \<lfloor>z\<rfloor>"
proof -
  have "z < of_int \<lfloor>z\<rfloor> + 1" by linarith
  also have "\<dots> = real (nat \<lfloor>z\<rfloor>) + 1" using assms by simp
  also have "\<dots> \<le> 2 ^ nat \<lfloor>z\<rfloor>"
    using of_nat_less_two_power [of "nat \<lfloor>z\<rfloor>", where 'a = real]
    by (metis Suc_leI of_nat_Suc of_nat_le_iff of_nat_less_iff of_nat_numeral of_nat_power add.commute plus_1_eq_Suc)
  finally show ?thesis .
qed

text \<open>\<open>binade\<close> is the exponent of the binade a positive number lies in.\<close>

lemma binade_bounds:
  assumes "0 < x"
  shows "2 powi (binade x) \<le> x \<and> x < 2 powi (binade x + 1)"
  unfolding binade_def
proof (rule binade_aux_bounds)
  let ?n = "nat \<lfloor>x\<rfloor> + nat \<lfloor>1 / x\<rfloor> + 2"
  have "(1 :: real) \<le> 2 ^ k" for k :: nat by simp
  from assms have "1 / x < 2 ^ nat \<lfloor>1 / x\<rfloor>" by (intro real_less_two_power_floor) simp
  also have "\<dots> \<le> 2 ^ ?n" by (intro power_increasing) simp_all
  finally have "1 / x \<le> 2 ^ ?n" by simp
  with assms show "1 / 2 ^ ?n \<le> x" by (simp add: field_simps)
  from assms have "x < 2 ^ nat \<lfloor>x\<rfloor>" by (rule real_less_two_power_floor)
  also have "\<dots> \<le> 2 ^ ?n" by (intro power_increasing) simp_all
  also have "\<dots> \<le> 2 * 2 ^ ?n" by simp
  finally show "x < 2 * 2 ^ ?n" .
qed

lemma round_half_even_nearest: "\<bar>of_int (round_half_even x) - x\<bar> \<le> 1 / 2"
proof -
  have "of_int \<lfloor>x\<rfloor> \<le> x" and "x < of_int \<lfloor>x\<rfloor> + 1" by linarith+
  then show ?thesis
    by (auto simp: round_half_even_def Let_def)
qed

text \<open>\<open>fl64 x\<close> is a multiple of the spacing of its binade, at most half a spacing
  away from \<open>x\<close>.\<close>

lemma fl64_nearest:
  assumes "x \<noteq> 0"
  defines "u \<equiv> 2 powi (max (binade \<bar>x\<bar>) (- 1022) - 52)"
  shows "fl64 x = of_int (round_half_even (x / u)) * u" and "\<bar>fl64 x - x\<bar> \<le> u / 2"
proof -
  have u: "0 < u" by (simp add: u_def)
  show eq: "fl64 x = of_int (round_half_even (x / u)) * u"
    using assms(1) by (simp add: fl64_def Let_def u_def)
  have "\<bar>of_int (round_half_even (x / u)) - x / u\<bar> \<le> 1 / 2"
    by (rule round_half_even_nearest)
  then have "\<bar>of_int (round_half_even (x / u)) - x / u\<bar> * u \<le> 1 / 2 * u"
    using u by (intro mult_right_mono) simp_all
  moreover have "\<bar>of_int (round_half_even (x / u)) - x / u\<bar> * u
                   = \<bar>of_int (round_half_even (x / u)) * u - x\<bar>"
  proof -
    have "(of_int (round_half_even (x / u)) - x / u) * u
            = of_int (round_half_even (x / u)) * u - x"
      using u by (simp add: left_diff_distrib)
    moreover have "\<bar>of_int (round_half_even (x / u)) - x / u\<bar> * u
            = \<bar>(of_int (round_half_even (x / u)) - x / u) * u\<bar>"
      using u by (simp add: abs_mult)
    ultimately show ?thesis by simp
  qed
  ultimately show "\<bar>fl64 x - x\<bar> \<le> u / 2" by (simp add: eq)
qed

lemma binade_aux_numeral:
  "binade_aux (numeral k) x =
     (if 2 \<le> x then binade_aux (pred_numeral k) (x / 2) + 1
      else if x < 1 then binade_aux (pred_numeral k) (2 * x) - 1
      else 0)"
  by (simp add: numeral_eq_Suc)

lemmas fl64_eval = fl64_def binade_def binade_aux_numeral round_half_even_def Let_def

text \<open>With the identity for \<open>rnd\<close> the rounded methods are the exact ones.\<close>

lemma foldl_add_sum_list:
  fixes c :: real
  shows "foldl (\<lambda>acc v. acc + v) c a = c + sum_list a"
  by (induction a arbitrary: c) simp_all

lemma foldl_dot_sum_list:
  fixes c :: real
  shows "foldl (\<lambda>acc (a, b). acc + a * b) c zs = c + sum_list (map (\<lambda>(a, b). a * b) zs)"
  by (induction zs arbitrary: c) (simp_all add: case_prod_beta)

lemma vdot_r_exact: "vdot_r (\<lambda>x. x) fused xs ys = vdot xs ys"
  by (simp add: vdot_r_def vdot_def foldl_dot_sum_list)

lemma np_dot_r_exact: "np_dot_r (\<lambda>x. x) fused A x = np_dot A x"
  by (simp add: np_dot_r_def np_dot_def vdot_r_exact)

lemma np_sub_r_exact: "np_sub_r (\<lambda>x. x) a b = np_sub a b"
  by (simp add: np_sub_r_def np_sub_def)

lemma np_add_r_exact: "np_add_r (\<lambda>x. x) a b = np_add a b"
  by (simp add: np_add_r_def np_add_def)

lemma np_square_r_exact: "np_square_r (\<lambda>x. x) a = np_square a"
  by (simp add: np_square_r_def np_square_def power2_eq_square)

lemma np_sum_r_exact: "np_sum_r (\<lambda>x. x) a = np_sum a"
  by (simp add: np_sum_r_def np_sum_def foldl_add_sum_list)

lemma np_mean_r_exact: "np_mean_r (\<lambda>x. x) a = np_mean a"
  by (simp add: np_mean_r_def np_mean_def np_sum_r_exact np_sum_def)

lemma init_r_exact: "init_r (\<lambda>x. x) A y ts = init A y ts"
  by (simp add: init_r_def init_def np_sum_r_exact np_square_r_exact)

lemma update_strong_error_r_exact: "update_strong_error_r (\<lambda>x. x) s = update_strong_error s"
  by (simp add: update_strong_error_r_def update_strong_error_def np_sub_r_exact
      np_mean_r_exact np_square_r_exact cong: sum.case_cong option.case_cong)

lemma landw_update_r_exact: "landw_update_r (\<lambda>x. x) fused A y est = landw_update A y est"
  by (simp add: landw_update_r_def landw_update_def np_dot_r_exact np_sub_r_exact
      np_add_r_exact cong: sum.case_cong)

lemma landw_residual_r_exact:
  "landw_residual_r (\<lambda>x. x) fused A y est = landw_residual A y est"
  by (simp add: landw_residual_r_def landw_residual_def np_dot_r_exact np_sub_r_exact
      cong: sum.case_cong)

lemma landw_one_iteration_r_exact:
  "landw_one_iteration_r (\<lambda>x. x) fused s = landw_one_iteration s"
  unfolding landw_one_iteration_r_def landw_one_iteration_def landw_update_r_exact
    landw_residual_r_exact update_strong_error_r_exact np_sum_r_exact np_square_r_exact
  by (rule refl)

lemma landw_loop_r_exact: "landw_loop_r (\<lambda>x. x) fused n s = landw_loop n s"
  by (induction n arbitrary: s)
     (simp_all add: landw_one_iteration_r_exact cong: outcome.case_cong)

lemma landw_r_exact: "landw_r (\<lambda>x. x) fused s k = landw s k"
  by (simp add: landw_r_def landw_def landw_loop_r_exact)

lemmas rounded_defs = init_r_def np_zeros_def np_sum_r_def np_square_r_def np_dot_r_def
  np_transpose_def np_sub_r_def np_add_r_def np_broadcast_def np_mean_r_def np_append_def
  vdot_r_def landw_update_r_def landw_residual_r_def landw_one_iteration_r_def
  update_strong_error_r_def skew_matrix_def skew_observation_def

lemma skew_init: "skew_engine =
  \<lparr>input_matrix = skew_matrix, output_variable = skew_observation, true_signal = None,
   sample_size = 2, para_size = 1, iter = 0, landw_estimate = [0],
   residual_vector = skew_observation, residuals = [1], mse = None\<rparr>"
  unfolding skew_engine_def
  by (simp add: rounded_defs fl64_eval)

lemma skew_step1: "landw_one_iteration_r fl64 fused skew_engine = Returned
  \<lparr>input_matrix = skew_matrix, output_variable = skew_observation, true_signal = None,
   sample_size = 2, para_size = 1, iter = 1, landw_estimate = [- (1 / 2 ^ 54)],
   residual_vector = skew_observation, residuals = [1, 1], mse = None\<rparr>"
  unfolding skew_init
  by (cases fused) (simp_all add: rounded_defs fl64_eval)

lemma skew_step2: "landw_one_iteration_r fl64 fused
  \<lparr>input_matrix = skew_matrix, output_variable = skew_observation, true_signal = None,
   sample_size = 2, para_size = 1, iter = 1, landw_estimate = [- (1 / 2 ^ 54)],
   residual_vector = skew_observation, residuals = [1, 1], mse = None\<rparr>
  = Returned
  \<lparr>input_matrix = skew_matrix, output_variable = skew_observation, true_signal = None,
   sample_size = 2, para_size = 1, iter = 2, landw_estimate = [- (1 / 2 ^ 53)],
   residual_vector = [- (3602879701896397 / 4503599627370496),
                      1351079888211149 / 2251799813685248],
   residuals = [1, 1, 4503599627370497 / 4503599627370496], mse = None\<rparr>"
  by (cases fused) (simp_all add: rounded_defs fl64_eval)

lemma skew_run: "landw_r fl64 fused skew_engine 2 = Returned
  \<lparr>input_matrix = skew_matrix, output_variable = skew_observation, true_signal = None,
   sample_size = 2, para_size = 1, iter = 2, landw_estimate = [- (1 / 2 ^ 53)],
   residual_vector = [- (3602879701896397 / 4503599627370496),
                      1351079888211149 / 2251799813685248],
   residuals = [1, 1, 4503599627370497 / 4503599627370496], mse = None\<rparr>"
proof -
  have n: "nat (2 :: int) = Suc (Suc 0)" by simp
  show ?thesis
    unfolding landw_r_def n
    by (simp only: landw_loop_r.simps skew_step1 skew_step2 outcome.case)
qed

lemma skew_wf: "wf_ndarray2 skew_matrix"
  by (simp add: wf_ndarray2_def skew_matrix_def)

lemma skew_contractive: "contractive skew_matrix"
proof -
  have sq: "(a - (3 / 8 * (3 / 8 * a) + 1 / 2 * (1 / 2 * a))) ^ 2 \<le> a ^ 2" for a :: real
  proof -
    have e: "(a - (3 / 8 * (3 / 8 * a) + 1 / 2 * (1 / 2 * a))) ^ 2 = 1521 / 4096 * a ^ 2"
      by (simp add: power2_eq_square field_simps)
    have "0 \<le> a ^ 2" by simp
    then show ?thesis unfolding e by linarith
  qed
  have two: "{..<2::nat} = {0, 1}" by auto
  show ?thesis
    unfolding contractive_def skew_matrix_def
    using sq by (simp add: two)
qed

lemma skew_init_r: "init_r fl64 skew_matrix skew_observation None = Inr skew_engine"
  by (simp add: skew_engine_def init_r_def)

lemma skew_matrix_representable: "map (map fl64) (rows skew_matrix) = rows skew_matrix"
  by (simp add: skew_matrix_def fl64_eval)

lemma skew_representable: "map fl64 skew_observation = skew_observation"
  by (simp add: skew_observation_def fl64_eval)

text \<open>
  C2, as the claim states it, fails on the float64 program.  The matrix with rows
  \<open>[0.375]\<close> and \<open>[0.5]\<close> is well-formed and satisfies the contraction precondition, the
  observation \<open>[-0.8, 0.6]\<close> has the matching length, and all entries are float64
  numbers; yet two iterations give the residual trace
  \<open>[1, 1, 1 + 2\<^sup>-\<^sup>5\<^sup>2]\<close>, whose last entry exceeds the one before it, whether the dot
  products are fused or not.
\<close>

theorem residuals_float64_counterexample:
  "wf_ndarray2 skew_matrix \<and> length skew_observation = shape0 skew_matrix
   \<and> contractive skew_matrix
   \<and> map (map fl64) (rows skew_matrix) = rows skew_matrix
   \<and> map fl64 skew_observation = skew_observation
   \<and> init_r fl64 skew_matrix skew_observation None = Inr skew_engine
   \<and> residuals (state_of (landw_r fl64 False skew_engine 2))
       = [1, 1, 4503599627370497 / 4503599627370496]
   \<and> residuals (state_of (landw_r fl64 True skew_engine 2))
       = [1, 1, 4503599627370497 / 4503599627370496]
   \<and> residuals (state_of (landw_r fl64 False skew_engine 2)) ! 1
       < residuals (state_of (landw_r fl64 False skew_engine 2)) ! 2
   \<and> residuals (state_of (landw_r fl64 True skew_engine 2)) ! 1
       < residuals (state_of (landw_r fl64 True skew_engine 2)) ! 2"
  by (simp add: skew_wf skew_contractive skew_matrix_representable skew_representable
      skew_init_r skew_run)
     (simp add: skew_matrix_def skew_observation_def)

section \<open>Monotone residuals in exact arithmetic\<close>

text \<open>
  C2, amended.  In exact arithmetic, for an instance built by the constructor from a
  well-formed \<open>n \<times> p\<close> matrix \<open>A\<close> whose update \<open>I - A\<^sup>T A\<close> is a contraction and an
  observation of length \<open>n\<close>, after any sequence of \<open>landw\<close> calls the residual trace is
  non-increasing: for every index \<open>m\<close> with entry \<open>m + 1\<close> computed,
  \<open>residuals[m + 1] \<le> residuals[m]\<close>.
\<close>

theorem residuals_nonincreasing:
  assumes "init A y ts = Inr s0" and "wf_ndarray2 A" and "length y = shape0 A"
    and "contractive A" and "s = run_calls s0 ks" and "m + 1 < length (residuals s)"
  shows "residuals s ! (m + 1) \<le> residuals s ! m"
proof -
  have "monotone_inv A y (run_calls s0 ks)"
  proof (rule run_calls_invariant)
    show "monotone_inv A y s0" using assms(1,3) by (rule monotone_inv_init)
  next
    fix s :: landweber
    assume "monotone_inv A y s"
    then show "monotone_inv A y (state_of (landw_one_iteration s))"
      using assms(2,3,4) by (rule monotone_inv_step)
  qed
  with assms(5,6) show ?thesis by (simp add: monotone_inv_def)
qed

theorem residuals_nonincreasing_witness:
  "init demo_matrix [1, 2] (Some [2, 8]) = Inr demo_engine
   \<and> wf_ndarray2 demo_matrix \<and> length [1, 2 :: real] = shape0 demo_matrix
   \<and> contractive demo_matrix
   \<and> (1 :: nat) + 1 < length (residuals (run_calls demo_engine [1, -2, 1]))
   \<and> residuals (run_calls demo_engine [1, -2, 1]) ! (1 + 1)
        \<le> residuals (run_calls demo_engine [1, -2, 1]) ! 1
   \<and> residuals (run_calls demo_engine [1, -2, 1]) = [5, 261/64, 55809/16384]"
proof -
  have l: "length [1, 2 :: real] = shape0 demo_matrix" by (simp add: demo_matrix_def)
  have m: "(1 :: nat) + 1 < length (residuals (run_calls demo_engine [1, -2, 1]))"
    by (simp add: demo_run)
  from residuals_nonincreasing [OF demo_init demo_wf l demo_contractive refl m]
  show ?thesis
    using l m by (simp add: demo_init demo_wf demo_contractive demo_run)
qed

end
